theory Spec2Isabelle
  imports Main
begin

unbundle bit_operations_syntax

section \<open>JavaScript values and operators used by the interpreter\<close>

text \<open>
  The interpreter stores JavaScript numbers in its arrays and fields. Every number it
  computes is an integer (the only division is under \<^verbatim>\<open>Math.floor\<close>), so a
  number is modelled as an unbounded \<open>int\<close>; the two other values that the code can
  produce are \<^verbatim>\<open>undefined\<close> (a read of an array slot that was never written)
  and \<^verbatim>\<open>NaN\<close> (arithmetic on \<^verbatim>\<open>undefined\<close>). Doubles are exact on
  integers below \<open>2^53\<close>; the model does not represent the rounding above that.
\<close>

datatype jsval = Num int | Undefined | NaN

text \<open>\<^verbatim>\<open>a + b\<close>, \<^verbatim>\<open>a - b\<close>, \<^verbatim>\<open>a * b\<close> on numbers; anything else gives NaN.\<close>

fun js_add :: "jsval \<Rightarrow> jsval \<Rightarrow> jsval" where
  "js_add (Num a) (Num b) = Num (a + b)"
| "js_add _ _ = NaN"

fun js_sub :: "jsval \<Rightarrow> jsval \<Rightarrow> jsval" where
  "js_sub (Num a) (Num b) = Num (a - b)"
| "js_sub _ _ = NaN"

fun js_mul :: "jsval \<Rightarrow> jsval \<Rightarrow> jsval" where
  "js_mul (Num a) (Num b) = Num (a * b)"
| "js_mul _ _ = NaN"

text \<open>\<^verbatim>\<open>a > b\<close>: false as soon as one side is not a number.\<close>

fun js_gt :: "jsval \<Rightarrow> jsval \<Rightarrow> bool" where
  "js_gt (Num a) (Num b) = (a > b)"
| "js_gt _ _ = False"

text \<open>\<^verbatim>\<open>a === b\<close>: NaN is not equal to itself.\<close>

fun js_seq :: "jsval \<Rightarrow> jsval \<Rightarrow> bool" where
  "js_seq (Num a) (Num b) = (a = b)"
| "js_seq Undefined Undefined = True"
| "js_seq _ _ = False"

text \<open>\<^verbatim>\<open>Math.floor(a / d)\<close> and \<^verbatim>\<open>a % d\<close> for a positive literal \<open>d\<close>; the remainder
  of JavaScript takes the sign of the dividend.\<close>

fun js_floor_div :: "jsval \<Rightarrow> int \<Rightarrow> jsval" where
  "js_floor_div (Num a) d = Num (a div d)"
| "js_floor_div _ d = NaN"

definition rem_trunc :: "int \<Rightarrow> int \<Rightarrow> int" where
  "rem_trunc a d = (if a < 0 then - ((- a) mod d) else a mod d)"

fun js_rem :: "jsval \<Rightarrow> int \<Rightarrow> jsval" where
  "js_rem (Num a) d = Num (rem_trunc a d)"
| "js_rem _ d = NaN"

text \<open>The bitwise operators convert their operands with ToInt32 and return a signed
  32-bit number.\<close>

definition int32 :: "int \<Rightarrow> int" where
  "int32 n = (n + 2147483648) mod 4294967296 - 2147483648"

fun toInt32 :: "jsval \<Rightarrow> int" where
  "toInt32 (Num n) = int32 n"
| "toInt32 _ = 0"

definition and32 :: "int \<Rightarrow> int \<Rightarrow> int" where
  "and32 a b = int32 a AND int32 b"

definition or32 :: "int \<Rightarrow> int \<Rightarrow> int" where
  "or32 a b = int32 a OR int32 b"

definition xor32 :: "int \<Rightarrow> int \<Rightarrow> int" where
  "xor32 a b = int32 a XOR int32 b"

definition shl32 :: "int \<Rightarrow> nat \<Rightarrow> int" where
  "shl32 a k = int32 (int32 a * 2 ^ k)"

definition shr32 :: "int \<Rightarrow> nat \<Rightarrow> int" where
  "shr32 a k = int32 a div 2 ^ k"

text \<open>\<^verbatim>\<open>n.toString(16)\<close> and \<^verbatim>\<open>`${n}`\<close> on integers.\<close>

definition digit_char :: "nat \<Rightarrow> char" where
  "digit_char d = ''0123456789abcdef'' ! d"

fun nat_to_string :: "nat \<Rightarrow> nat \<Rightarrow> string" where
  "nat_to_string b n =
     (if b < 2 \<or> n < b then [digit_char n]
      else nat_to_string b (n div b) @ [digit_char (n mod b)])"

declare nat_to_string.simps [simp del]

definition toString16 :: "int \<Rightarrow> string" where
  "toString16 n = (if n < 0 then ''-'' @ nat_to_string 16 (nat (- n)) else nat_to_string 16 (nat n))"

definition toString10 :: "int \<Rightarrow> string" where
  "toString10 n = (if n < 0 then ''-'' @ nat_to_string 10 (nat (- n)) else nat_to_string 10 (nat n))"

section \<open>Machine state\<close>

text \<open>
  The fields of class \<^verbatim>\<open>Chip8\<close>. A JavaScript array is a property map: a slot that
  was never written reads \<^verbatim>\<open>undefined\<close>, and a write to any index (beyond the
  length, negative, or NaN) creates the slot. \<open>memory\<close> is indexed by \<open>pc\<close> and
  \<open>i\<close>, which can hold any value, so its index type is \<open>jsval\<close>; \<open>v\<close> and
  \<open>stack\<close> are only indexed by opcode nibbles and by \<open>sp\<close>, which are numbers.
  \<open>keys\<close> records the truthiness of each slot. The rows of \<open>display\<close> are only
  indexed by \<open>(\<dots>) % 32\<close> and \<open>(\<dots>) % 64\<close> of non-negative numbers. The index
  register \<^verbatim>\<open>i\<close> of the source is the field \<open>i_reg\<close>. \<open>console\<close> is the list of
  messages passed to \<^verbatim>\<open>console.warn\<close>, oldest first.
\<close>

record chip8 =
  memory :: "jsval \<Rightarrow> jsval"
  v :: "int \<Rightarrow> jsval"
  i_reg :: jsval
  pc :: jsval
  stack :: "int \<Rightarrow> jsval"
  sp :: int
  delayTimer :: jsval
  soundTimer :: jsval
  display :: "int \<Rightarrow> int \<Rightarrow> int"
  keys :: "jsval \<Rightarrow> bool"
  drawFlag :: bool
  paused :: bool
  speed :: int
  lastInstruction :: "int option"
  waitingForKeyPress :: bool
  keyRegister :: int
  console :: "string list"

definition MEM_SIZE :: int where "MEM_SIZE = 4096"
definition DISPLAY_WIDTH :: int where "DISPLAY_WIDTH = 64"
definition DISPLAY_HEIGHT :: int where "DISPLAY_HEIGHT = 32"
definition STACK_SIZE :: int where "STACK_SIZE = 16"
definition NUM_REGISTERS :: int where "NUM_REGISTERS = 16"
definition FONTSET_SIZE :: nat where "FONTSET_SIZE = 80"

definition fontset :: "int list" where
  "fontset =
    [0xF0, 0x90, 0x90, 0x90, 0xF0,
     0x20, 0x60, 0x20, 0x20, 0x70,
     0xF0, 0x10, 0xF0, 0x80, 0xF0,
     0xF0, 0x10, 0xF0, 0x10, 0xF0,
     0x90, 0x90, 0xF0, 0x10, 0x10,
     0xF0, 0x80, 0xF0, 0x10, 0xF0,
     0xF0, 0x80, 0xF0, 0x90, 0xF0,
     0xF0, 0x10, 0x20, 0x40, 0x40,
     0xF0, 0x90, 0xF0, 0x90, 0xF0,
     0xF0, 0x90, 0xF0, 0x10, 0xF0,
     0xF0, 0x90, 0xF0, 0x90, 0x90,
     0xE0, 0x90, 0xE0, 0x90, 0xE0,
     0xF0, 0x80, 0x80, 0x80, 0xF0,
     0xE0, 0x90, 0x90, 0x90, 0xE0,
     0xF0, 0x80, 0xF0, 0x80, 0xF0,
     0xF0, 0x80, 0xF0, 0x80, 0x80]"

text \<open>\<^verbatim>\<open>new Array(n).fill(0)\<close>: slots \<open>0..n-1\<close> hold 0, no other slot exists.\<close>

definition zero_array :: "int \<Rightarrow> int \<Rightarrow> jsval" where
  "zero_array n k = (if 0 \<le> k \<and> k < n then Num 0 else Undefined)"

definition zero_memory :: "jsval \<Rightarrow> jsval" where
  "zero_memory a = (case a of Num k \<Rightarrow> zero_array MEM_SIZE k | _ \<Rightarrow> Undefined)"

definition clear_display :: "int \<Rightarrow> int \<Rightarrow> int" where
  "clear_display = (\<lambda>row col. 0)"

text \<open>\<^verbatim>\<open>reset()\<close> assigns every field; the console output is not a field of the object
  and is kept.\<close>

definition reset :: "chip8 \<Rightarrow> chip8" where
  "reset s =
     (let s0 = \<lparr> memory = zero_memory, v = zero_array NUM_REGISTERS, i_reg = Num 0,
                 pc = Num 0x200, stack = zero_array STACK_SIZE, sp = 0,
                 delayTimer = Num 0, soundTimer = Num 0,
                 display = clear_display, keys = (\<lambda>k. False), drawFlag = False,
                 paused = False, speed = 10, lastInstruction = None,
                 waitingForKeyPress = False, keyRegister = 0, console = console s \<rparr>
      in fold (\<lambda>k t. t\<lparr>memory := (memory t)(Num (int k) := Num (fontset ! k))\<rparr>)
           [0..<FONTSET_SIZE] s0)"

text \<open>\<^verbatim>\<open>new Chip8()\<close>: the constructor calls \<^verbatim>\<open>reset()\<close> on the fresh object.\<close>

definition new_chip8 :: chip8 where
  "new_chip8 = reset \<lparr> memory = (\<lambda>a. Undefined), v = (\<lambda>k. Undefined), i_reg = Undefined,
                 pc = Undefined, stack = (\<lambda>k. Undefined), sp = 0,
                 delayTimer = Undefined, soundTimer = Undefined,
                 display = clear_display, keys = (\<lambda>k. False), drawFlag = False,
                 paused = False, speed = 0, lastInstruction = None,
                 waitingForKeyPress = False, keyRegister = 0, console = [] \<rparr>"

text \<open>\<^verbatim>\<open>loadROM(romBuffer)\<close>: one store per element, at \<open>0x200 + i\<close>.\<close>

definition loadROM :: "jsval list \<Rightarrow> chip8 \<Rightarrow> chip8" where
  "loadROM romBuffer s =
     fold (\<lambda>k t. t\<lparr>memory := (memory t)(Num (0x200 + int k) := romBuffer ! k)\<rparr>)
       [0..<length romBuffer] s"

section \<open>Fetch, decode and execute\<close>

text \<open>\<^verbatim>\<open>console.warn(`Unknown opcode: ${opcode.toString(16)}`)\<close>\<close>

definition warn_unknown :: "int \<Rightarrow> chip8 \<Rightarrow> chip8" where
  "warn_unknown opcode s = s\<lparr>console := console s @ [''Unknown opcode: '' @ toString16 opcode]\<rparr>"

text \<open>\<^verbatim>\<open>(this.memory[this.pc] << 8) | this.memory[this.pc + 1]\<close>\<close>

definition fetch :: "chip8 \<Rightarrow> int" where
  "fetch s = or32 (shl32 (toInt32 (memory s (pc s))) 8)
                  (toInt32 (memory s (js_add (pc s) (Num 1))))"

text \<open>\<^verbatim>\<open>this.pc += 2\<close>, used by the fetch and by every skip.\<close>

definition skip :: "chip8 \<Rightarrow> chip8" where
  "skip s = s\<lparr>pc := js_add (pc s) (Num 2)\<rparr>"

text \<open>\<^verbatim>\<open>case 0x0000\<close>: the inner switch compares the whole opcode.\<close>

definition exec_0000 :: "int \<Rightarrow> chip8 \<Rightarrow> chip8" where
  "exec_0000 opcode s =
     (if opcode = 0x00E0 then s\<lparr>display := clear_display, drawFlag := True\<rparr>
      else if opcode = 0x00EE then
        (let s1 = s\<lparr>sp := sp s - 1\<rparr> in s1\<lparr>pc := stack s1 (sp s1)\<rparr>)
      else warn_unknown opcode s)"

text \<open>\<^verbatim>\<open>case 0x8000\<close>: register arithmetic. The flag \<open>v[0xF]\<close> is stored first and
  \<open>v[x]\<close> second; the second statement of 8XY5, 8XY6, 8XY7 and 8XYE reads the registers
  again, after the flag was stored.\<close>

definition exec_8000 :: "int \<Rightarrow> int \<Rightarrow> int \<Rightarrow> chip8 \<Rightarrow> chip8" where
  "exec_8000 x y opcode s =
     (let k = and32 opcode 0x000F in
      if k = 0x0 then s\<lparr>v := (v s)(x := v s y)\<rparr>
      else if k = 0x1 then s\<lparr>v := (v s)(x := Num (or32 (toInt32 (v s x)) (toInt32 (v s y))))\<rparr>
      else if k = 0x2 then s\<lparr>v := (v s)(x := Num (and32 (toInt32 (v s x)) (toInt32 (v s y))))\<rparr>
      else if k = 0x3 then s\<lparr>v := (v s)(x := Num (xor32 (toInt32 (v s x)) (toInt32 (v s y))))\<rparr>
      else if k = 0x4 then
        (let sum = js_add (v s x) (v s y);
             s1 = s\<lparr>v := (v s)(0xF := Num (if js_gt sum (Num 0xFF) then 1 else 0))\<rparr>
         in s1\<lparr>v := (v s1)(x := Num (and32 (toInt32 sum) 0xFF))\<rparr>)
      else if k = 0x5 then
        (let s1 = s\<lparr>v := (v s)(0xF := Num (if js_gt (v s x) (v s y) then 1 else 0))\<rparr>
         in s1\<lparr>v := (v s1)(x := Num (and32 (toInt32 (js_sub (v s1 x) (v s1 y))) 0xFF))\<rparr>)
      else if k = 0x6 then
        (let s1 = s\<lparr>v := (v s)(0xF := Num (and32 (toInt32 (v s x)) 0x1))\<rparr>
         in s1\<lparr>v := (v s1)(x := Num (shr32 (toInt32 (v s1 x)) 1))\<rparr>)
      else if k = 0x7 then
        (let s1 = s\<lparr>v := (v s)(0xF := Num (if js_gt (v s y) (v s x) then 1 else 0))\<rparr>
         in s1\<lparr>v := (v s1)(x := Num (and32 (toInt32 (js_sub (v s1 y) (v s1 x))) 0xFF))\<rparr>)
      else if k = 0xE then
        (let s1 = s\<lparr>v := (v s)(0xF := Num (shr32 (and32 (toInt32 (v s x)) 0x80) 7))\<rparr>
         in s1\<lparr>v := (v s1)(x := Num (and32 (shl32 (toInt32 (v s1 x)) 1) 0xFF))\<rparr>)
      else warn_unknown opcode s)"

text \<open>\<^verbatim>\<open>case 0xD000\<close>: the body of the inner loop for one set sprite bit, one sprite
  column, one sprite row, and the whole instruction.\<close>

definition draw_pixel :: "int \<Rightarrow> int \<Rightarrow> chip8 \<Rightarrow> chip8" where
  "draw_pixel pixelY pixelX s =
     (let s1 = (if display s pixelY pixelX = 1 then s\<lparr>v := (v s)(0xF := Num 1)\<rparr> else s)
      in s1\<lparr>display := (display s1)
             (pixelY := (display s1 pixelY)(pixelX := xor32 (display s1 pixelY pixelX) 1))\<rparr>)"

definition draw_col :: "int \<Rightarrow> int \<Rightarrow> nat \<Rightarrow> jsval \<Rightarrow> nat \<Rightarrow> chip8 \<Rightarrow> chip8" where
  "draw_col xCoord yCoord row spriteByte col s =
     (if and32 (toInt32 spriteByte) (shr32 0x80 col) \<noteq> 0
      then draw_pixel (rem_trunc (yCoord + int row) DISPLAY_HEIGHT)
                      (rem_trunc (xCoord + int col) DISPLAY_WIDTH) s
      else s)"

definition draw_row :: "int \<Rightarrow> int \<Rightarrow> nat \<Rightarrow> chip8 \<Rightarrow> chip8" where
  "draw_row xCoord yCoord row s =
     (let spriteByte = memory s (js_add (i_reg s) (Num (int row)))
      in fold (draw_col xCoord yCoord row spriteByte) [0..<8] s)"

definition draw_sprite :: "int \<Rightarrow> int \<Rightarrow> int \<Rightarrow> chip8 \<Rightarrow> chip8" where
  "draw_sprite x y n s =
     (let xCoord = and32 (toInt32 (v s x)) 0xFF;
          yCoord = and32 (toInt32 (v s y)) 0xFF;
          height = n;
          s1 = s\<lparr>v := (v s)(0xF := Num 0)\<rparr>;
          s2 = fold (draw_row xCoord yCoord) [0..<nat height] s1
      in s2\<lparr>drawFlag := True\<rparr>)"

text \<open>\<^verbatim>\<open>case 0xE000\<close>: key skips.\<close>

definition exec_E000 :: "int \<Rightarrow> int \<Rightarrow> chip8 \<Rightarrow> chip8" where
  "exec_E000 x opcode s =
     (let k = and32 opcode 0x00FF in
      if k = 0x9E then (if keys s (v s x) then skip s else s)
      else if k = 0xA1 then (if \<not> keys s (v s x) then skip s else s)
      else warn_unknown opcode s)"

text \<open>\<^verbatim>\<open>case 0xF000\<close>: timers, index register, BCD and block transfers.\<close>

definition exec_F000 :: "int \<Rightarrow> int \<Rightarrow> chip8 \<Rightarrow> chip8" where
  "exec_F000 x opcode s =
     (let k = and32 opcode 0x00FF in
      if k = 0x07 then s\<lparr>v := (v s)(x := delayTimer s)\<rparr>
      else if k = 0x0A then s\<lparr>waitingForKeyPress := True, keyRegister := x\<rparr>
      else if k = 0x15 then s\<lparr>delayTimer := v s x\<rparr>
      else if k = 0x18 then s\<lparr>soundTimer := v s x\<rparr>
      else if k = 0x1E then
        (let s1 = s\<lparr>i_reg := js_add (i_reg s) (v s x)\<rparr> in
         if js_gt (i_reg s1) (Num 0xFFF) then
           (let s2 = s1\<lparr>v := (v s1)(0xF := Num 1)\<rparr>
            in s2\<lparr>i_reg := Num (and32 (toInt32 (i_reg s2)) 0xFFF)\<rparr>)
         else s1)
      else if k = 0x29 then s\<lparr>i_reg := js_mul (v s x) (Num 5)\<rparr>
      else if k = 0x33 then
        (let s1 = s\<lparr>memory := (memory s)(i_reg s := js_floor_div (v s x) 100)\<rparr>;
             s2 = s1\<lparr>memory := (memory s1)
                    (js_add (i_reg s1) (Num 1) := js_floor_div (js_rem (v s1 x) 100) 10)\<rparr>
         in s2\<lparr>memory := (memory s2)(js_add (i_reg s2) (Num 2) := js_rem (v s2 x) 10)\<rparr>)
      else if k = 0x55 then
        fold (\<lambda>reg t. t\<lparr>memory := (memory t)(js_add (i_reg t) (Num (int reg)) := v t (int reg))\<rparr>)
          [0..<nat (x + 1)] s
      else if k = 0x65 then
        fold (\<lambda>reg t. t\<lparr>v := (v t)(int reg := memory t (js_add (i_reg t) (Num (int reg))))\<rparr>)
          [0..<nat (x + 1)] s
      else warn_unknown opcode s)"

text \<open>The decode and the outer switch. \<open>rnd\<close> is the value of
  \<^verbatim>\<open>Math.floor(Math.random() * 0xFF)\<close>, read by CXNN only.\<close>

definition execute :: "int \<Rightarrow> int \<Rightarrow> chip8 \<Rightarrow> chip8" where
  "execute rnd opcode s =
     (let x = shr32 (and32 opcode 0x0F00) 8;
          y = shr32 (and32 opcode 0x00F0) 4;
          n = and32 opcode 0x000F;
          nn = and32 opcode 0x00FF;
          nnn = and32 opcode 0x0FFF;
          h = and32 opcode 0xF000
      in
      if h = 0x0000 then exec_0000 opcode s
      else if h = 0x1000 then s\<lparr>pc := Num nnn\<rparr>
      else if h = 0x2000 then
        (let s1 = s\<lparr>stack := (stack s)(sp s := pc s)\<rparr>;
             s2 = s1\<lparr>sp := sp s1 + 1\<rparr>
         in s2\<lparr>pc := Num nnn\<rparr>)
      else if h = 0x3000 then (if js_seq (v s x) (Num nn) then skip s else s)
      else if h = 0x4000 then (if \<not> js_seq (v s x) (Num nn) then skip s else s)
      else if h = 0x5000 then (if js_seq (v s x) (v s y) then skip s else s)
      else if h = 0x6000 then s\<lparr>v := (v s)(x := Num nn)\<rparr>
      else if h = 0x7000 then
        s\<lparr>v := (v s)(x := Num (and32 (toInt32 (js_add (v s x) (Num nn))) 0xFF))\<rparr>
      else if h = 0x8000 then exec_8000 x y opcode s
      else if h = 0x9000 then (if \<not> js_seq (v s x) (v s y) then skip s else s)
      else if h = 0xA000 then s\<lparr>i_reg := Num nnn\<rparr>
      else if h = 0xB000 then s\<lparr>pc := js_add (Num nnn) (v s 0)\<rparr>
      else if h = 0xC000 then s\<lparr>v := (v s)(x := Num (and32 rnd nn))\<rparr>
      else if h = 0xD000 then draw_sprite x y n s
      else if h = 0xE000 then exec_E000 x opcode s
      else if h = 0xF000 then exec_F000 x opcode s
      else warn_unknown opcode s)"

text \<open>\<^verbatim>\<open>executeInstruction()\<close>: fetch, record the opcode, advance \<open>pc\<close>, execute.\<close>

definition executeInstruction :: "int \<Rightarrow> chip8 \<Rightarrow> chip8" where
  "executeInstruction rnd s =
     (let opcode = fetch s;
          s1 = s\<lparr>lastInstruction := Some opcode\<rparr>
      in execute rnd opcode (skip s1))"

text \<open>\<^verbatim>\<open>emulateCycle()\<close>: nothing when paused; otherwise \<open>speed\<close> loop rounds, each of
  which executes an instruction unless the machine waits for a key, and then the two
  timers. \<open>rnd k\<close> is the random number available to round \<open>k\<close>. The loop bound
  \<^verbatim>\<open>this.speed\<close> is not written by any instruction.\<close>

definition tick_timers :: "chip8 \<Rightarrow> chip8" where
  "tick_timers s =
     (let s1 = (if js_gt (delayTimer s) (Num 0)
                then s\<lparr>delayTimer := js_sub (delayTimer s) (Num 1)\<rparr> else s)
      in if js_gt (soundTimer s1) (Num 0)
         then s1\<lparr>soundTimer := js_sub (soundTimer s1) (Num 1)\<rparr> else s1)"

definition cycle_round :: "(nat \<Rightarrow> int) \<Rightarrow> nat \<Rightarrow> chip8 \<Rightarrow> chip8" where
  "cycle_round rnd k s = (if \<not> waitingForKeyPress s then executeInstruction (rnd k) s else s)"

definition emulateCycle :: "(nat \<Rightarrow> int) \<Rightarrow> chip8 \<Rightarrow> chip8" where
  "emulateCycle rnd s =
     (if paused s then s
      else tick_timers (fold (cycle_round rnd) [0..<nat (speed s)] s))"

text \<open>\<^verbatim>\<open>keyPress(keyCode)\<close> and \<^verbatim>\<open>keyRelease(keyCode)\<close>\<close>

definition keyPress :: "jsval \<Rightarrow> chip8 \<Rightarrow> chip8" where
  "keyPress keyCode s =
     (let s1 = s\<lparr>keys := (keys s)(keyCode := True)\<rparr>
      in if waitingForKeyPress s1
         then (let s2 = s1\<lparr>v := (v s1)(keyRegister s1 := keyCode)\<rparr>
               in s2\<lparr>waitingForKeyPress := False\<rparr>)
         else s1)"

definition keyRelease :: "jsval \<Rightarrow> chip8 \<Rightarrow> chip8" where
  "keyRelease keyCode s = s\<lparr>keys := (keys s)(keyCode := False)\<rparr>"

section \<open>Disassembler\<close>

text \<open>\<^verbatim>\<open>disassembleInstruction(opcode)\<close>. A nested switch without a matching case
  breaks out to the final \<^verbatim>\<open>return `UNKNOWN (${opcode.toString(16)})`\<close>.\<close>

definition disassembleInstruction :: "int \<Rightarrow> string" where
  "disassembleInstruction opcode =
     (let x = shr32 (and32 opcode 0x0F00) 8;
          y = shr32 (and32 opcode 0x00F0) 4;
          n = and32 opcode 0x000F;
          nn = and32 opcode 0x00FF;
          nnn = and32 opcode 0x0FFF;
          h = and32 opcode 0xF000;
          unknown = ''UNKNOWN ('' @ toString16 opcode @ '')''
      in
      if h = 0x0000 then
        (if opcode = 0x00E0 then ''CLS''
         else if opcode = 0x00EE then ''RET''
         else ''SYS '' @ toString16 nnn)
      else if h = 0x1000 then ''JP '' @ toString16 nnn
      else if h = 0x2000 then ''CALL '' @ toString16 nnn
      else if h = 0x3000 then ''SE V'' @ toString16 x @ '', '' @ toString16 nn
      else if h = 0x4000 then ''SNE V'' @ toString16 x @ '', '' @ toString16 nn
      else if h = 0x5000 then ''SE V'' @ toString16 x @ '', V'' @ toString16 y
      else if h = 0x6000 then ''LD V'' @ toString16 x @ '', '' @ toString16 nn
      else if h = 0x7000 then ''ADD V'' @ toString16 x @ '', '' @ toString16 nn
      else if h = 0x8000 then
        (if n = 0x0 then ''LD V'' @ toString16 x @ '', V'' @ toString16 y
         else if n = 0x1 then ''OR V'' @ toString16 x @ '', V'' @ toString16 y
         else if n = 0x2 then ''AND V'' @ toString16 x @ '', V'' @ toString16 y
         else if n = 0x3 then ''XOR V'' @ toString16 x @ '', V'' @ toString16 y
         else if n = 0x4 then ''ADD V'' @ toString16 x @ '', V'' @ toString16 y
         else if n = 0x5 then ''SUB V'' @ toString16 x @ '', V'' @ toString16 y
         else if n = 0x6 then ''SHR V'' @ toString16 x
         else if n = 0x7 then ''SUBN V'' @ toString16 x @ '', V'' @ toString16 y
         else if n = 0xE then ''SHL V'' @ toString16 x
         else unknown)
      else if h = 0x9000 then ''SNE V'' @ toString16 x @ '', V'' @ toString16 y
      else if h = 0xA000 then ''LD I, '' @ toString16 nnn
      else if h = 0xB000 then ''JP V0, '' @ toString16 nnn
      else if h = 0xC000 then ''RND V'' @ toString16 x @ '', '' @ toString16 nn
      else if h = 0xD000 then
        ''DRW V'' @ toString16 x @ '', V'' @ toString16 y @ '', '' @ toString10 n
      else if h = 0xE000 then
        (if nn = 0x9E then ''SKP V'' @ toString16 x
         else if nn = 0xA1 then ''SKNP V'' @ toString16 x
         else unknown)
      else if h = 0xF000 then
        (if nn = 0x07 then ''LD V'' @ toString16 x @ '', DT''
         else if nn = 0x0A then ''LD V'' @ toString16 x @ '', K''
         else if nn = 0x15 then ''LD DT, V'' @ toString16 x
         else if nn = 0x18 then ''LD ST, V'' @ toString16 x
         else if nn = 0x1E then ''ADD I, V'' @ toString16 x
         else if nn = 0x29 then ''LD F, V'' @ toString16 x
         else if nn = 0x33 then ''LD B, V'' @ toString16 x
         else if nn = 0x55 then ''LD [I], V'' @ toString16 x
         else if nn = 0x65 then ''LD V'' @ toString16 x @ '', [I]''
         else unknown)
      else unknown)"

section \<open>The sprite addressed by the index register\<close>

text \<open>\<open>sprite_bit s row col\<close>: bit \<open>col\<close> (counted from the most significant bit) of the
  sprite byte \<open>memory[i + row]\<close> is set; this is the test of the inner loop of DXYN.\<close>

definition sprite_bit :: "chip8 \<Rightarrow> nat \<Rightarrow> nat \<Rightarrow> bool" where
  "sprite_bit s row col =
     (and32 (toInt32 (memory s (js_add (i_reg s) (Num (int row))))) (shr32 0x80 col) \<noteq> 0)"

section \<open>The machine invariants of the specification\<close>

text \<open>\<open>fits m w\<close>: \<open>w\<close> is a number between 0 and \<open>m\<close>. \<open>machine_inv\<close> is the list
  of invariants of the specification: \<open>0 \<le> PC \<le> 0xFFF\<close>, \<open>0 \<le> I \<le> 0xFFF\<close>,
  \<open>0 \<le> SP \<le> 16\<close>, every register fits in 8 bits, every stack entry in 12 bits.
  \<open>machine_ok\<close> adds what the instructions read back into registers: the 4096 memory
  cells and the delay timer hold 8-bit values.\<close>

definition fits :: "int \<Rightarrow> jsval \<Rightarrow> bool" where
  "fits m w = (case w of Num n \<Rightarrow> 0 \<le> n \<and> n \<le> m | Undefined \<Rightarrow> False | NaN \<Rightarrow> False)"

definition machine_inv :: "chip8 \<Rightarrow> bool" where
  "machine_inv s =
     (fits 0xFFF (pc s) \<and> fits 0xFFF (i_reg s) \<and> 0 \<le> sp s \<and> sp s \<le> 16
      \<and> (\<forall>r\<in>{0..15}. fits 0xFF (v s r)) \<and> (\<forall>k\<in>{0..15}. fits 0xFFF (stack s k)))"

definition machine_ok :: "chip8 \<Rightarrow> bool" where
  "machine_ok s =
     (machine_inv s \<and> (\<forall>a\<in>{0..0xFFF}. fits 0xFF (memory s (Num a)))
      \<and> fits 0xFF (delayTimer s))"

section \<open>Machines used as concrete inputs\<close>

text \<open>\<open>boot bytes\<close> is a freshly constructed machine with the ROM \<open>bytes\<close> loaded;
  \<open>steps k\<close> runs \<open>k\<close> instructions (the random number is irrelevant for the programs
  below, none of which contains CXNN).\<close>

definition boot :: "int list \<Rightarrow> chip8" where
  "boot bytes = loadROM (map Num bytes) new_chip8"

definition steps :: "nat \<Rightarrow> chip8 \<Rightarrow> chip8" where
  "steps k s = (executeInstruction 0 ^^ k) s"

text \<open>The machines at which the theorems below are instantiated: each is reached from
  the constructor by loading a ROM and executing its first instructions.\<close>

definition st_fx29 :: chip8 where "st_fx29 = steps 1 (boot [0x60, 0x10, 0xF0, 0x29])"
definition st_dxy0 :: chip8 where "st_dxy0 = steps 1 (boot [0x6F, 0x07, 0xD0, 0x10])"
definition st_ret :: chip8 where "st_ret = boot [0x00, 0xEE]"
definition st_call :: chip8 where "st_call = steps 16 (boot [0x22, 0x00])"
definition st_8f14 :: chip8 where "st_8f14 = steps 2 (boot [0x6F, 0x01, 0x61, 0x01, 0x8F, 0x14])"
definition st_bnnn :: chip8 where "st_bnnn = steps 1 (boot [0x60, 0xFF, 0xBF, 0xFF])"
definition st_jump :: chip8 where "st_jump = boot [0xB2, 0x04]"
definition st_sys :: chip8 where "st_sys = boot [0x01, 0x23]"
definition st_wait :: chip8 where "st_wait = steps 2 (boot [0x61, 0x03, 0xF0, 0x0A, 0x60, 0x05])"
definition st_blank :: chip8 where
  "st_blank = steps 1 (boot [0xA3, 0x00, 0xD0, 0x01, 0xD0, 0x01])"
definition st_glyph :: chip8 where
  "st_glyph = steps 1 (boot [0xA2, 0x06, 0xD0, 0x05, 0xD0, 0x05, 0xF0, 0x90, 0x90, 0x90, 0xF0])"
definition st_timer :: chip8 where "st_timer = steps 2 (boot [0x61, 0x03, 0xF1, 0x15, 0x12, 0x04])"
definition rom_too_long :: "jsval list" where "rom_too_long = replicate 3585 (Num 1)"

section \<open>Basic facts about the operators, the reset state and the loader\<close>

lemma int32_id: "- 2147483648 \<le> n \<Longrightarrow> n < 2147483648 \<Longrightarrow> int32 n = n"
  by (simp add: int32_def)

lemma and_15: "(n::int) AND 15 = n mod 16"
  using take_bit_eq_mask[of 4 n] by (simp add: take_bit_eq_mod mask_eq_exp_minus_1)

lemma store_loop_frame:
  "\<exists>M. fold (\<lambda>k t. t\<lparr>memory := (memory t)(Num (base + int k) := f k)\<rparr>) [0..<n] (s::chip8)
        = s\<lparr>memory := M\<rparr>"
proof -
  define G :: "nat \<Rightarrow> chip8 \<Rightarrow> chip8" where "G = (\<lambda>k t. t\<lparr>memory := (memory t)(Num (base + int k) := f k)\<rparr>)"
  have "\<exists>M. fold G [0..<n] s = s\<lparr>memory := M\<rparr>"
  proof (induction n)
    case 0
    show ?case by (rule exI[of _ "memory s"]) simp
  next
    case (Suc n)
    then obtain M where M: "fold G [0..<n] s = s\<lparr>memory := M\<rparr>" by blast
    have "fold G [0..<Suc n] s = G n (s\<lparr>memory := M\<rparr>)" by (simp add: M)
    also have "\<dots> = s\<lparr>memory := M(Num (base + int n) := f n)\<rparr>" by (simp add: G_def)
    finally show ?case by blast
  qed
  then show ?thesis unfolding G_def .
qed

lemma store_loop_Num:
  "memory (fold (\<lambda>k t. t\<lparr>memory := (memory t)(Num (base + int k) := f k)\<rparr>) [0..<n] (s::chip8))
      (Num j)
     = (if base \<le> j \<and> j < base + int n then f (nat (j - base)) else memory s (Num j))"
proof -
  define G :: "nat \<Rightarrow> chip8 \<Rightarrow> chip8" where "G = (\<lambda>k t. t\<lparr>memory := (memory t)(Num (base + int k) := f k)\<rparr>)"
  have step: "memory (G k t) a = (if a = Num (base + int k) then f k else memory t a)" for k t a
    by (simp add: G_def)
  have "memory (fold G [0..<n] s) (Num j)
     = (if base \<le> j \<and> j < base + int n then f (nat (j - base)) else memory s (Num j))"
    by (induction n) (auto simp: step nat_diff_distrib)
  then show ?thesis unfolding G_def .
qed

lemma store_loop_other:
  assumes "\<And>j. a \<noteq> Num j"
  shows "memory (fold (\<lambda>k t. t\<lparr>memory := (memory t)(Num (base + int k) := f k)\<rparr>) [0..<n]
            (s::chip8)) a
     = memory s a"
proof -
  define G :: "nat \<Rightarrow> chip8 \<Rightarrow> chip8" where "G = (\<lambda>k t. t\<lparr>memory := (memory t)(Num (base + int k) := f k)\<rparr>)"
  have step: "memory (G k t) a = memory t a" for k t
    using assms by (simp add: G_def)
  have "memory (fold G [0..<n] s) a = memory s a"
    by (induction n) (auto simp: step)
  then show ?thesis unfolding G_def .
qed

lemma loadROM_frame: "\<exists>M. loadROM romBuffer s = s\<lparr>memory := M\<rparr>"
  unfolding loadROM_def by (rule store_loop_frame)

lemma loadROM_fields:
  "v (loadROM r s) = v s" "i_reg (loadROM r s) = i_reg s" "pc (loadROM r s) = pc s"
  "stack (loadROM r s) = stack s" "sp (loadROM r s) = sp s"
  "delayTimer (loadROM r s) = delayTimer s" "soundTimer (loadROM r s) = soundTimer s"
  "display (loadROM r s) = display s" "keys (loadROM r s) = keys s"
  "drawFlag (loadROM r s) = drawFlag s" "paused (loadROM r s) = paused s"
  "speed (loadROM r s) = speed s" "lastInstruction (loadROM r s) = lastInstruction s"
  "waitingForKeyPress (loadROM r s) = waitingForKeyPress s"
  "keyRegister (loadROM r s) = keyRegister s" "console (loadROM r s) = console s"
  using loadROM_frame[of r s] by auto

lemma memory_loadROM_Num:
  "memory (loadROM r s) (Num j)
     = (if 0x200 \<le> j \<and> j < 0x200 + int (length r) then r ! nat (j - 0x200) else memory s (Num j))"
  unfolding loadROM_def by (rule store_loop_Num)

lemma memory_loadROM_other: "(\<And>j. a \<noteq> Num j) \<Longrightarrow> memory (loadROM r s) a = memory s a"
  unfolding loadROM_def by (rule store_loop_other)

lemma font_loop:
  "fold (\<lambda>k t. t\<lparr>memory := (memory t)(Num (int k) := Num (fontset ! k))\<rparr>) [0..<80] (s::chip8)
   = fold (\<lambda>k t. t\<lparr>memory := (memory t)(Num (0 + int k) := Num (fontset ! k))\<rparr>) [0..<80] s"
  by simp

lemma new_chip8_frame:
  "\<exists>M. new_chip8 =
     \<lparr> memory = M, v = zero_array 16, i_reg = Num 0, pc = Num 0x200, stack = zero_array 16,
       sp = 0, delayTimer = Num 0, soundTimer = Num 0, display = clear_display,
       keys = (\<lambda>k. False), drawFlag = False, paused = False, speed = 10,
       lastInstruction = None, waitingForKeyPress = False, keyRegister = 0, console = [] \<rparr>"
proof -
  let ?s0 = "\<lparr> memory = zero_memory, v = zero_array 16, i_reg = Num 0, pc = Num 0x200,
       stack = zero_array 16,
       sp = 0, delayTimer = Num 0, soundTimer = Num 0, display = clear_display,
       keys = (\<lambda>k. False), drawFlag = False, paused = False, speed = 10,
       lastInstruction = None, waitingForKeyPress = False, keyRegister = 0, console = [] \<rparr>"
  obtain M where "fold (\<lambda>k t. t\<lparr>memory := (memory t)(Num (0 + int k) := Num (fontset ! k))\<rparr>)
      [0..<80] ?s0 = ?s0\<lparr>memory := M\<rparr>"
    using store_loop_frame[of 0 "\<lambda>k. Num (fontset ! k)" 80 ?s0] by blast
  then have "new_chip8 = ?s0\<lparr>memory := M\<rparr>"
    unfolding new_chip8_def reset_def Let_def FONTSET_SIZE_def NUM_REGISTERS_def STACK_SIZE_def
      font_loop
    by simp
  then show ?thesis by (intro exI[of _ M]) simp
qed

lemma new_chip8_fields:
  "v new_chip8 = zero_array 16" "i_reg new_chip8 = Num 0" "pc new_chip8 = Num 0x200"
  "stack new_chip8 = zero_array 16" "sp new_chip8 = 0"
  "delayTimer new_chip8 = Num 0" "soundTimer new_chip8 = Num 0"
  "display new_chip8 = clear_display" "keys new_chip8 = (\<lambda>k. False)"
  "drawFlag new_chip8 = False" "paused new_chip8 = False"
  "speed new_chip8 = 10" "lastInstruction new_chip8 = None"
  "waitingForKeyPress new_chip8 = False"
  "keyRegister new_chip8 = 0" "console new_chip8 = []"
proof -
  obtain M where E: "new_chip8 =
     \<lparr> memory = M, v = zero_array 16, i_reg = Num 0, pc = Num 0x200, stack = zero_array 16,
       sp = 0, delayTimer = Num 0, soundTimer = Num 0, display = clear_display,
       keys = (\<lambda>k. False), drawFlag = False, paused = False, speed = 10,
       lastInstruction = None, waitingForKeyPress = False, keyRegister = 0, console = [] \<rparr>"
    using new_chip8_frame by blast
  show "v new_chip8 = zero_array 16" "i_reg new_chip8 = Num 0" "pc new_chip8 = Num 0x200"
    "stack new_chip8 = zero_array 16" "sp new_chip8 = 0"
    "delayTimer new_chip8 = Num 0" "soundTimer new_chip8 = Num 0"
    "display new_chip8 = clear_display" "keys new_chip8 = (\<lambda>k. False)"
    "drawFlag new_chip8 = False" "paused new_chip8 = False"
    "speed new_chip8 = 10" "lastInstruction new_chip8 = None"
    "waitingForKeyPress new_chip8 = False"
    "keyRegister new_chip8 = 0" "console new_chip8 = []"
    by (simp_all add: E)
qed

lemma memory_new_chip8_Num:
  "memory new_chip8 (Num j)
     = (if 0 \<le> j \<and> j < 80 then Num (fontset ! nat j)
        else if 0 \<le> j \<and> j < 4096 then Num 0 else Undefined)"
  unfolding new_chip8_def reset_def Let_def FONTSET_SIZE_def font_loop store_loop_Num
  by (simp add: zero_memory_def zero_array_def MEM_SIZE_def)

lemma memory_new_chip8_other:
  assumes "\<And>j. a \<noteq> Num j"
  shows "memory new_chip8 a = Undefined"
proof -
  have "zero_memory a = Undefined"
    using assms by (cases a) (auto simp: zero_memory_def)
  then show ?thesis
    unfolding new_chip8_def reset_def Let_def FONTSET_SIZE_def font_loop
      store_loop_other[OF assms]
    by simp
qed

lemmas boot_simps = boot_def loadROM_fields new_chip8_fields memory_loadROM_Num
  memory_new_chip8_Num zero_array_def

lemmas exec_defs = executeInstruction_def execute_def skip_def fetch_def
  exec_0000_def exec_8000_def exec_E000_def exec_F000_def draw_sprite_def
  and32_def or32_def shl32_def shr32_def xor32_def int32_def Let_def

lemmas run_simps = steps_def boot_simps exec_defs numeral_eq_Suc

section \<open>FX29: the index register after LD F, Vx\<close>

text \<open>
  Claim C7 says that FX29 sets \<open>I = (V[x] & 0xF) * 5\<close>. The code multiplies the whole
  register: \<^verbatim>\<open>this.i = this.v[x] * 5\<close>. At \<open>V[0] = 0x10\<close> the code gives 80, the claim 0.
\<close>

lemma st_fx29_facts:
  "fetch st_fx29 = 0xF029" "v st_fx29 0 = Num 0x10"
  by (simp_all add: st_fx29_def steps_def boot_simps exec_defs)

theorem fx29_low_nibble_counterexample:
  "fetch st_fx29 = 0xF029 \<and> v st_fx29 0 = Num 0x10
   \<and> i_reg (executeInstruction 0 st_fx29) = Num 80
   \<and> i_reg (executeInstruction 0 st_fx29) \<noteq> Num (and32 0x10 0xF * 5)"
  by (simp add: st_fx29_def steps_def boot_simps exec_defs)

text \<open>
  C7, amended: for every value \<open>n\<close> of \<open>V[x]\<close> in \<open>0..255\<close>, executing FX29 sets
  \<open>I = n * 5\<close>, without masking; this is the font address \<open>(n & 0xF) * 5\<close> of the low
  nibble exactly when \<open>n \<le> 15\<close>.
\<close>

theorem fx29_index_is_vx_times_5:
  assumes "and32 (fetch s) 0xF000 = 0xF000" and "and32 (fetch s) 0x00FF = 0x29"
    and "v s (shr32 (and32 (fetch s) 0x0F00) 8) = Num n" and "0 \<le> n" and "n \<le> 255"
  shows "i_reg (executeInstruction rnd s) = Num (n * 5)
       \<and> (i_reg (executeInstruction rnd s) = Num (and32 n 0xF * 5) \<longleftrightarrow> n \<le> 15)"
proof -
  have a: "i_reg (executeInstruction rnd s) = Num (n * 5)"
    using assms(1-3)
    by (simp add: executeInstruction_def execute_def exec_F000_def skip_def Let_def)
  have "and32 n 0xF = n mod 16"
    using assms(4,5) by (simp add: and32_def int32_id and_15)
  moreover have "n mod 16 = n \<longleftrightarrow> n \<le> 15" using assms(4) by auto
  ultimately show ?thesis using a by auto
qed

theorem fx29_index_is_vx_times_5_witness:
  "i_reg (executeInstruction 0 st_fx29) = Num 80
   \<and> i_reg (executeInstruction 0 st_fx29) \<noteq> Num (and32 16 0xF * 5)"
proof -
  have 1: "and32 (fetch st_fx29) 0xF000 = 0xF000"
    by (simp add: st_fx29_facts and32_def int32_def)
  have 2: "and32 (fetch st_fx29) 0x00FF = 0x29"
    by (simp add: st_fx29_facts and32_def int32_def)
  have 3: "v st_fx29 (shr32 (and32 (fetch st_fx29) 0x0F00) 8) = Num 16"
    by (simp add: st_fx29_facts and32_def shr32_def int32_def)
  show ?thesis
    using fx29_index_is_vx_times_5[OF 1 2 3, of 0] by (simp add: and32_def int32_def)
qed

section \<open>DXY0: a sprite of height zero\<close>

text \<open>
  Claim C10: executing DXYN with \<open>n = 0\<close> leaves the framebuffer unchanged, sets
  \<open>drawFlag\<close> and overwrites \<open>VF\<close> with 0; the other registers, \<open>I\<close>, the memory, the
  stack and the timers are unchanged. The whole effect of the call is: the opcode is
  recorded, \<open>pc\<close> advances by 2, \<open>V[0xF] = 0\<close>, \<open>drawFlag = true\<close>.
\<close>

theorem dxy0_frame:
  assumes "and32 (fetch s) 0xF000 = 0xD000" and "and32 (fetch s) 0x000F = 0"
  shows "executeInstruction rnd s =
           s\<lparr>lastInstruction := Some (fetch s), pc := js_add (pc s) (Num 2),
             v := (v s)(0xF := Num 0), drawFlag := True\<rparr>"
  using assms
  by (simp add: executeInstruction_def execute_def draw_sprite_def skip_def Let_def)

lemma st_dxy0_facts:
  "fetch st_dxy0 = 0xD010" "pc st_dxy0 = Num 0x202" "v st_dxy0 0xF = Num 7"
  by (simp_all add: st_dxy0_def steps_def boot_simps exec_defs)

theorem dxy0_frame_witness:
  "v st_dxy0 0xF = Num 7
   \<and> executeInstruction 0 st_dxy0 =
       st_dxy0\<lparr>lastInstruction := Some 0xD010, pc := Num 0x204,
         v := (v st_dxy0)(0xF := Num 0), drawFlag := True\<rparr>"
proof -
  have 1: "and32 (fetch st_dxy0) 0xF000 = 0xD000"
    by (simp add: st_dxy0_facts and32_def int32_def)
  have 2: "and32 (fetch st_dxy0) 0x000F = 0"
    by (simp add: st_dxy0_facts and32_def int32_def)
  show ?thesis using dxy0_frame[OF 1 2, of 0] by (simp add: st_dxy0_facts)
qed

section \<open>RET on an empty stack, CALL on a full stack\<close>

text \<open>
  Claim C2 says that RET with \<open>SP = 0\<close> and CALL with \<open>SP = 16\<close> log a diagnostic and
  leave \<open>PC\<close>, \<open>SP\<close> and the stack as they were. The code has no such check. On a fresh
  machine whose ROM starts with 00EE, the instruction logs nothing, leaves \<open>SP = -1\<close> and
  loads \<open>PC\<close> from the slot \<open>stack[-1]\<close>, which does not exist.
\<close>

lemma st_ret_facts:
  "fetch st_ret = 0x00EE" "sp st_ret = 0" "stack st_ret (- 1) = Undefined"
  "pc st_ret = Num 0x200" "console st_ret = []"
  by (simp_all add: st_ret_def boot_simps exec_defs)

lemma st_call_facts:
  "fetch st_call = 0x2200" "sp st_call = 16" "pc st_call = Num 0x200" "console st_call = []"
  by (simp_all add: st_call_def run_simps)

theorem ret_underflow_counterexample:
  "fetch st_ret = 0x00EE \<and> sp st_ret = 0 \<and> pc st_ret = Num 0x200
   \<and> sp (executeInstruction 0 st_ret) = - 1
   \<and> sp (executeInstruction 0 st_ret) \<noteq> sp st_ret
   \<and> pc (executeInstruction 0 st_ret) = Undefined
   \<and> console (executeInstruction 0 st_ret) = console st_ret"
  by (simp add: st_ret_def boot_simps exec_defs)

text \<open>
  C2, amended: RET with \<open>SP = 0\<close> and CALL with \<open>SP = 16\<close> are executed like any other
  RET and CALL, and nothing is logged. RET sets \<open>SP = -1\<close> and \<open>PC = stack[-1]\<close>; CALL
  stores the return address (the already advanced \<open>PC\<close>) in the new slot \<open>stack[16]\<close>,
  sets \<open>SP = 17\<close> and \<open>PC = nnn\<close>. Every other field, the console included, is unchanged.
\<close>

theorem ret_call_unguarded:
  "(fetch s = 0x00EE \<and> sp s = 0 \<longrightarrow>
      executeInstruction rnd s =
        s\<lparr>lastInstruction := Some 0x00EE, sp := - 1, pc := stack s (- 1)\<rparr>)
   \<and> (and32 (fetch s) 0xF000 = 0x2000 \<and> sp s = 16 \<longrightarrow>
      executeInstruction rnd s =
        s\<lparr>lastInstruction := Some (fetch s),
          stack := (stack s)(16 := js_add (pc s) (Num 2)), sp := 17,
          pc := Num (and32 (fetch s) 0x0FFF)\<rparr>)"
  by (simp add: executeInstruction_def execute_def exec_0000_def skip_def Let_def
      and32_def int32_def)

theorem ret_call_unguarded_witness:
  "executeInstruction 0 st_ret =
     st_ret\<lparr>lastInstruction := Some 0x00EE, sp := - 1, pc := Undefined\<rparr>
   \<and> executeInstruction 0 st_call =
        st_call\<lparr>lastInstruction := Some 0x2200, stack := (stack st_call)(16 := Num 0x202),
          sp := 17, pc := Num 0x200\<rparr>"
  using ret_call_unguarded[of st_ret 0] ret_call_unguarded[of st_call 0]
  by (simp add: st_ret_facts st_call_facts and32_def int32_def)

section \<open>8XY4 with the flag register as destination\<close>

text \<open>For every destination other than \<open>V[0xF]\<close> the sum is split into carry and low
  byte as intended.\<close>

lemma and_255: "(n::int) AND 255 = n mod 256"
  using take_bit_eq_mask[of 8 n] by (simp add: take_bit_eq_mod mask_eq_exp_minus_1)

lemma add_carry_identity_x_not_F:
  assumes op: "and32 (fetch s) 0xF000 = 0x8000" "and32 (fetch s) 0x000F = 4"
    and x: "shr32 (and32 (fetch s) 0x0F00) 8 \<noteq> 0xF"
    and a: "v s (shr32 (and32 (fetch s) 0x0F00) 8) = Num a" "0 \<le> a" "a \<le> 0xFF"
    and b: "v s (shr32 (and32 (fetch s) 0x00F0) 4) = Num b" "0 \<le> b" "b \<le> 0xFF"
  shows "\<exists>c r. v (executeInstruction rnd s) 0xF = Num c
           \<and> v (executeInstruction rnd s) (shr32 (and32 (fetch s) 0x0F00) 8) = Num r
           \<and> a + b = 256 * c + r"
proof -
  have low: "and32 (int32 (a + b)) 0xFF = (a + b) mod 256"
    using a(2,3) b(2,3) by (simp add: and32_def int32_id and_255)
  have vf: "v (executeInstruction rnd s) 0xF = Num (if a + b > 0xFF then 1 else 0)"
    using op x
    by (simp add: executeInstruction_def execute_def exec_8000_def skip_def Let_def a(1) b(1))
  have vx: "v (executeInstruction rnd s) (shr32 (and32 (fetch s) 0x0F00) 8)
      = Num ((a + b) mod 256)"
    using op x
    by (simp add: executeInstruction_def execute_def exec_8000_def skip_def Let_def a(1) b(1) low)
  have "a + b = 256 * (if a + b > 0xFF then 1 else 0) + (a + b) mod 256"
  proof (cases "a + b > 0xFF")
    case True
    have "(a + b - 256) mod 256 = (a + b) mod 256" by (rule minus_mod_self2)
    moreover have "(a + b - 256) mod 256 = a + b - 256"
      using True a(3) b(3) by (intro mod_pos_pos_trivial) simp_all
    ultimately show ?thesis using True by simp
  next
    case False
    then have "(a + b) mod 256 = a + b"
      using a(2) b(2) by (intro mod_pos_pos_trivial) simp_all
    with False show ?thesis by simp
  qed
  with vf vx show ?thesis by blast
qed

text \<open>
  Claim C3: after 8XY4, \<open>V[x] + V[y]\<close> (before) equals \<open>256 * VF + V[x]\<close> (after), also
  for \<open>x = 0xF\<close>, where \<open>VF\<close> ends as the carry. The code stores the carry in
  \<open>V[0xF]\<close> first and the low byte of the sum in \<open>V[x]\<close> second, so for \<open>x = 0xF\<close> the
  carry is overwritten: with \<open>VF = 1\<close> and \<open>V[1] = 1\<close>, opcode 8F14 leaves \<open>VF = 2\<close>, and
  \<open>1 + 1 \<noteq> 256 * 2 + 2\<close>.
\<close>

theorem add_carry_lost_when_x_is_F:
  "fetch st_8f14 = 0x8F14 \<and> v st_8f14 0xF = Num 1 \<and> v st_8f14 1 = Num 1
   \<and> v (executeInstruction 0 st_8f14) 0xF = Num 2
   \<and> (1::int) + 1 \<noteq> 256 * 2 + 2"
  by (simp add: st_8f14_def run_simps)

section \<open>loadROM\<close>

text \<open>
  Claim C8 says that a ROM longer than 3584 bytes is rejected with a diagnostic and that
  memory is then unchanged. \<^verbatim>\<open>loadROM\<close> has no length check: a ROM of 3585 bytes is
  stored in full, the first byte at \<open>0x200\<close> and the last in the new slot \<open>0x1000\<close>, and
  nothing is logged.
\<close>

theorem loadROM_too_long_counterexample:
  "length rom_too_long = 3585
   \<and> memory new_chip8 (Num 0x200) = Num 0
   \<and> memory (loadROM rom_too_long new_chip8) (Num 0x200) = Num 1
   \<and> memory new_chip8 (Num 0x1000) = Undefined
   \<and> memory (loadROM rom_too_long new_chip8) (Num 0x1000) = Num 1
   \<and> console (loadROM rom_too_long new_chip8) = console new_chip8"
  by (simp add: rom_too_long_def memory_loadROM_Num memory_new_chip8_Num loadROM_fields)

text \<open>
  C8, amended: \<^verbatim>\<open>loadROM\<close> checks no length and logs nothing. For every sequence, of
  any length, element \<open>k\<close> is stored verbatim at address \<open>0x200 + k\<close>, and every other
  memory slot and every other field is unchanged; so for a sequence of at most 3584
  elements no address outside \<open>0x200..0xFFF\<close> is written.
\<close>

theorem loadROM_verbatim_unchecked:
  "(\<forall>k < length rom. memory (loadROM rom s) (Num (0x200 + int k)) = rom ! k)
   \<and> (\<forall>a. (\<forall>k < length rom. a \<noteq> Num (0x200 + int k)) \<longrightarrow>
          memory (loadROM rom s) a = memory s a)
   \<and> loadROM rom s = s\<lparr>memory := memory (loadROM rom s)\<rparr>
   \<and> (length rom \<le> 3584 \<longrightarrow>
        (\<forall>a. memory (loadROM rom s) a \<noteq> memory s a \<longrightarrow>
             (\<exists>j. a = Num j \<and> 0x200 \<le> j \<and> j \<le> 0xFFF)))"
proof -
  have 1: "\<forall>k < length rom. memory (loadROM rom s) (Num (0x200 + int k)) = rom ! k"
    by (simp add: memory_loadROM_Num)
  have 2: "memory (loadROM rom s) a = memory s a"
    if "\<forall>k < length rom. a \<noteq> Num (0x200 + int k)" for a
  proof (cases a)
    case (Num j)
    have "\<not> (0x200 \<le> j \<and> j < 0x200 + int (length rom))"
    proof
      assume h: "0x200 \<le> j \<and> j < 0x200 + int (length rom)"
      then have "nat (j - 0x200) < length rom" and "j = 0x200 + int (nat (j - 0x200))" by auto
      with that Num show False by blast
    qed
    then show ?thesis unfolding Num memory_loadROM_Num by auto
  qed (simp_all add: memory_loadROM_other)
  have 3: "loadROM rom s = s\<lparr>memory := memory (loadROM rom s)\<rparr>"
    using loadROM_frame[of rom s] by auto
  have 4: "\<exists>j. a = Num j \<and> 0x200 \<le> j \<and> j \<le> 0xFFF"
    if "length rom \<le> 3584" and "memory (loadROM rom s) a \<noteq> memory s a" for a
  proof (cases a)
    case (Num j)
    with that show ?thesis by (auto simp: memory_loadROM_Num split: if_splits)
  qed (use that in \<open>simp_all add: memory_loadROM_other\<close>)
  from 1 2 3 4 show ?thesis by blast
qed

theorem loadROM_verbatim_unchecked_witness:
  "memory (loadROM [Num 0xA2, Num 0x06] new_chip8) (Num 0x201) = Num 0x06
   \<and> memory (loadROM [Num 0xA2, Num 0x06] new_chip8) (Num 0x1FF)
       = memory new_chip8 (Num 0x1FF)"
proof -
  let ?rom = "[Num 0xA2, Num 0x06]"
  have a: "(1::nat) < length ?rom" by simp
  have b: "\<forall>k < length ?rom. Num 0x1FF \<noteq> Num (0x200 + int k)" by simp
  from loadROM_verbatim_unchecked[of ?rom new_chip8]
  have "memory (loadROM ?rom new_chip8) (Num (0x200 + int 1)) = ?rom ! 1"
    and "memory (loadROM ?rom new_chip8) (Num 0x1FF) = memory new_chip8 (Num 0x1FF)"
    using a b by blast+
  then show ?thesis by simp
qed

section \<open>The opcode tables of the disassembler and of the executor\<close>

text \<open>Loops and the sprite drawing change only the fields they assign.\<close>

lemma fold_preserves:
  assumes "\<And>k t. g (f k t) = g t"
  shows "g (fold f ks s) = g s"
  by (induction ks arbitrary: s) (simp_all add: assms)

lemma draw_sprite_preserves:
  assumes "\<And>t V. g (t\<lparr>v := V\<rparr>) = g (t::chip8)" and "\<And>t D. g (t\<lparr>display := D\<rparr>) = g t"
    and "\<And>t b. g (t\<lparr>drawFlag := b\<rparr>) = g t"
  shows "g (draw_sprite x y n s) = g s"
proof -
  have px: "g (draw_pixel py px t) = g t" for py px t
    by (simp add: draw_pixel_def Let_def assms)
  have col: "g (draw_col xc yc row b col t) = g t" for xc yc row b col t
    by (simp add: draw_col_def px)
  have row: "g (draw_row xc yc row t) = g t" for xc yc row t
    unfolding draw_row_def Let_def by (rule fold_preserves) (rule col)
  have "g (fold (draw_row xc yc) rows t) = g t" for xc yc rows t
    by (rule fold_preserves) (rule row)
  then show ?thesis
    by (simp add: draw_sprite_def Let_def assms)
qed


lemma high_nibble_cases:
  obtains "and32 opcode 0xF000 = 0x0000" | "and32 opcode 0xF000 = 0x1000"
  | "and32 opcode 0xF000 = 0x2000" | "and32 opcode 0xF000 = 0x3000"
  | "and32 opcode 0xF000 = 0x4000" | "and32 opcode 0xF000 = 0x5000"
  | "and32 opcode 0xF000 = 0x6000" | "and32 opcode 0xF000 = 0x7000"
  | "and32 opcode 0xF000 = 0x8000" | "and32 opcode 0xF000 = 0x9000"
  | "and32 opcode 0xF000 = 0xA000" | "and32 opcode 0xF000 = 0xB000"
  | "and32 opcode 0xF000 = 0xC000" | "and32 opcode 0xF000 = 0xD000"
  | "and32 opcode 0xF000 = 0xE000" | "and32 opcode 0xF000 = 0xF000"
proof -
  define a where "a = int32 opcode"
  define h where "h = a AND 0xF000"
  define q where "q = h div 4096"
  have h: "and32 opcode 0xF000 = h" by (simp add: and32_def h_def a_def int32_id)
  have 1: "0 \<le> h" by (simp add: h_def)
  have 2: "h \<le> 0xF000" unfolding h_def by (rule AND_upper2) simp
  have "h AND 0xFFF = a AND (0xF000 AND 0xFFF)" by (simp add: h_def and.assoc)
  then have "h AND 0xFFF = 0" by simp
  moreover have "h AND 0xFFF = h mod 4096"
    using take_bit_eq_mask[of 12 h] by (simp add: take_bit_eq_mod mask_eq_exp_minus_1)
  ultimately have 3: "h mod 4096 = 0" by simp
  then have hq: "h = 4096 * q" unfolding q_def using mult_div_mod_eq[of 4096 h] by simp
  from 1 2 hq have "q \<in> {0..15}" by simp
  then have "q = 0 \<or> q = 1 \<or> q = 2 \<or> q = 3 \<or> q = 4 \<or> q = 5 \<or> q = 6 \<or> q = 7 \<or> q = 8
     \<or> q = 9 \<or> q = 10 \<or> q = 11 \<or> q = 12 \<or> q = 13 \<or> q = 14 \<or> q = 15"
    by (simp add: simp_from_to)
  then show ?thesis
    using that by (elim disjE) (simp_all add: h hq)
qed

lemma console_exec_0000:
  "console (exec_0000 opcode s) =
     (if opcode = 0x00E0 \<or> opcode = 0x00EE then console s
      else console s @ [''Unknown opcode: '' @ toString16 opcode])"
  by (simp add: exec_0000_def warn_unknown_def Let_def)

lemma console_exec_8000:
  "console (exec_8000 x y opcode s) =
     (if and32 opcode 0x000F \<in> {0, 1, 2, 3, 4, 5, 6, 7, 0xE} then console s
      else console s @ [''Unknown opcode: '' @ toString16 opcode])"
  by (simp add: exec_8000_def warn_unknown_def Let_def)

lemma console_exec_E000:
  "console (exec_E000 x opcode s) =
     (if and32 opcode 0x00FF \<in> {0x9E, 0xA1} then console s
      else console s @ [''Unknown opcode: '' @ toString16 opcode])"
  by (simp add: exec_E000_def warn_unknown_def skip_def Let_def)

lemma console_exec_F000:
  "console (exec_F000 x opcode s) =
     (if and32 opcode 0x00FF \<in> {0x07, 0x0A, 0x15, 0x18, 0x1E, 0x29, 0x33, 0x55, 0x65}
      then console s
      else console s @ [''Unknown opcode: '' @ toString16 opcode])"
  by (simp add: exec_F000_def warn_unknown_def Let_def fold_preserves)

lemma console_draw_sprite: "console (draw_sprite x y n s) = console s"
  by (rule draw_sprite_preserves) simp_all

lemma console_execute:
  "console (execute rnd opcode s) =
     (let h = and32 opcode 0xF000 in
      if h = 0x0000 then console (exec_0000 opcode s)
      else if h = 0x8000 then
        console (exec_8000 (shr32 (and32 opcode 0x0F00) 8) (shr32 (and32 opcode 0x00F0) 4) opcode s)
      else if h = 0xE000 then console (exec_E000 (shr32 (and32 opcode 0x0F00) 8) opcode s)
      else if h = 0xF000 then console (exec_F000 (shr32 (and32 opcode 0x0F00) 8) opcode s)
      else console s)"
  by (cases opcode rule: high_nibble_cases)
     (simp_all add: execute_def Let_def skip_def console_draw_sprite)


text \<open>
  Claim C9 says that the disassembler returns \<open>UNKNOWN (\<dots>)\<close> for exactly the opcodes
  on which the executor logs \<open>Unknown opcode\<close>. For the opcodes \<open>0NNN\<close> other than 00E0
  and 00EE the disassembler returns \<open>SYS nnn\<close>, and the executor logs them as unknown.
\<close>

lemma st_sys_facts: "fetch st_sys = 0x0123" "console st_sys = []"
  by (simp_all add: st_sys_def boot_simps exec_defs)

theorem disassembler_sys_counterexample:
  "fetch st_sys = 0x0123
   \<and> disassembleInstruction 0x0123 = ''SYS 123''
   \<and> disassembleInstruction 0x0123 \<noteq> ''UNKNOWN ('' @ toString16 0x0123 @ '')''
   \<and> console (executeInstruction 0 st_sys) = console st_sys @ [''Unknown opcode: 123'']"
  by (simp add: st_sys_def boot_simps exec_defs disassembleInstruction_def warn_unknown_def
      toString16_def nat_to_string.simps digit_char_def)

text \<open>
  C9, amended: for every opcode, the disassembler returns \<open>UNKNOWN (\<dots>)\<close> precisely when
  the high nibble is not 0 and the executor logs \<open>Unknown opcode\<close>; it returns
  \<open>SYS nnn\<close> precisely when the high nibble is 0 and the executor logs \<open>Unknown opcode\<close>
  (the opcodes \<open>0NNN\<close> other than 00E0 and 00EE); on every other opcode it returns
  another mnemonic and the executor logs nothing. The executor logs at most this one
  message per instruction.
\<close>

theorem disassembler_table_vs_executor:
  "((disassembleInstruction opcode = ''UNKNOWN ('' @ toString16 opcode @ '')'')
     = (and32 opcode 0xF000 \<noteq> 0
        \<and> console (execute rnd opcode s)
            = console s @ [''Unknown opcode: '' @ toString16 opcode]))
  \<and> ((disassembleInstruction opcode = ''SYS '' @ toString16 (and32 opcode 0x0FFF))
     = (and32 opcode 0xF000 = 0
        \<and> console (execute rnd opcode s)
            = console s @ [''Unknown opcode: '' @ toString16 opcode]))
  \<and> (console (execute rnd opcode s) = console s
        \<or> console (execute rnd opcode s)
            = console s @ [''Unknown opcode: '' @ toString16 opcode])"
  by (cases opcode rule: high_nibble_cases)
     (simp_all add: console_execute console_exec_0000 console_exec_8000 console_exec_E000
      console_exec_F000 disassembleInstruction_def Let_def)

theorem disassembler_table_vs_executor_witness:
  "disassembleInstruction 0x8AB8 = ''UNKNOWN (8ab8)''
   \<and> console (execute 0 0x8AB8 new_chip8) = [''Unknown opcode: 8ab8'']"
proof -
  have t: "toString16 0x8AB8 = ''8ab8''"
    by (simp add: toString16_def nat_to_string.simps digit_char_def)
  have d: "disassembleInstruction 0x8AB8 = ''UNKNOWN ('' @ toString16 0x8AB8 @ '')''"
    by (simp add: disassembleInstruction_def and32_def int32_def Let_def)
  with disassembler_table_vs_executor[of "0x8AB8" 0 new_chip8]
  have "console (execute 0 0x8AB8 new_chip8)
          = console new_chip8 @ [''Unknown opcode: '' @ toString16 0x8AB8]"
    by blast
  with d show ?thesis by (simp add: t new_chip8_fields)
qed

section \<open>emulateCycle: pause, wait for key, timers\<close>

text \<open>No instruction writes \<open>lastInstruction\<close>, \<open>paused\<close>, \<open>speed\<close> or \<open>keys\<close>.\<close>

lemma exec_F000_preserves:
  assumes "\<And>t X. g (t\<lparr>v := X\<rparr>) = g (t::chip8)" and "\<And>t X. g (t\<lparr>memory := X\<rparr>) = g t"
    and "\<And>t X. g (t\<lparr>i_reg := X\<rparr>) = g t" and "\<And>t X. g (t\<lparr>delayTimer := X\<rparr>) = g t"
    and "\<And>t X. g (t\<lparr>soundTimer := X\<rparr>) = g t"
    and "\<And>t X. g (t\<lparr>waitingForKeyPress := X\<rparr>) = g t"
    and "\<And>t X. g (t\<lparr>keyRegister := X\<rparr>) = g t" and "\<And>t X. g (t\<lparr>console := X\<rparr>) = g t"
  shows "g (exec_F000 x opcode s) = g s"
proof -
  have 1: "g (fold (\<lambda>reg t. t\<lparr>memory := (memory t)(js_add (i_reg t) (Num (int reg)) := v t (int reg))\<rparr>)
          ks t) = g t" for ks t
    by (rule fold_preserves) (rule assms)
  have 2: "g (fold (\<lambda>reg t. t\<lparr>v := (v t)(int reg := memory t (js_add (i_reg t) (Num (int reg))))\<rparr>)
          ks t) = g t" for ks t
    by (rule fold_preserves) (rule assms)
  show ?thesis
    unfolding exec_F000_def Let_def warn_unknown_def
    by (simp add: 1 2 assms)
qed

lemma execute_preserves:
  assumes "\<And>t X. g (t\<lparr>v := X\<rparr>) = g (t::chip8)" and "\<And>t X. g (t\<lparr>memory := X\<rparr>) = g t"
    and "\<And>t X. g (t\<lparr>i_reg := X\<rparr>) = g t" and "\<And>t X. g (t\<lparr>delayTimer := X\<rparr>) = g t"
    and "\<And>t X. g (t\<lparr>soundTimer := X\<rparr>) = g t"
    and "\<And>t X. g (t\<lparr>waitingForKeyPress := X\<rparr>) = g t"
    and "\<And>t X. g (t\<lparr>keyRegister := X\<rparr>) = g t" and "\<And>t X. g (t\<lparr>console := X\<rparr>) = g t"
    and "\<And>t X. g (t\<lparr>display := X\<rparr>) = g t" and "\<And>t X. g (t\<lparr>drawFlag := X\<rparr>) = g t"
    and "\<And>t X. g (t\<lparr>pc := X\<rparr>) = g t" and "\<And>t X. g (t\<lparr>sp := X\<rparr>) = g t"
    and "\<And>t X. g (t\<lparr>stack := X\<rparr>) = g t"
  shows "g (execute rnd opcode s) = g s"
proof -
  have 0: "g (exec_0000 opcode t) = g t" for t
    by (simp add: exec_0000_def Let_def warn_unknown_def assms)
  have 8: "g (exec_8000 x y opcode t) = g t" for x y t
    by (simp add: exec_8000_def Let_def warn_unknown_def assms)
  have D: "g (draw_sprite x y n t) = g t" for x y n t
    by (rule draw_sprite_preserves) (rule assms)+
  have E: "g (exec_E000 x opcode t) = g t" for x t
    by (simp add: exec_E000_def Let_def warn_unknown_def skip_def assms)
  have F: "g (exec_F000 x opcode t) = g t" for x t
    by (rule exec_F000_preserves) (rule assms)+
  show ?thesis
    unfolding execute_def Let_def
    by (simp add: 0 8 D E F skip_def warn_unknown_def assms)
qed

lemma execute_untouched:
  "lastInstruction (execute rnd opcode s) = lastInstruction s"
  "paused (execute rnd opcode s) = paused s"
  "speed (execute rnd opcode s) = speed s"
  "keys (execute rnd opcode s) = keys s"
  by (rule execute_preserves; simp)+

lemma fold_cycle_round_waiting:
  "waitingForKeyPress s \<Longrightarrow> fold (cycle_round rnd) ks s = s"
  by (induction ks) (simp_all add: cycle_round_def)

lemma st_timer_facts:
  "paused st_timer = False" "waitingForKeyPress st_timer = False" "speed st_timer = 10"
  "delayTimer st_timer = Num 3" "soundTimer st_timer = Num 0" "pc st_timer = Num 0x204"
  "fetch st_timer = 0x1204"
  by (simp_all add: st_timer_def run_simps)

lemma st_wait_facts:
  "paused st_wait = False" "waitingForKeyPress st_wait = True"
  "delayTimer st_wait = Num 0" "soundTimer st_wait = Num 0" "pc st_wait = Num 0x204"
  "fetch st_wait = 0x6005" "v st_wait 0 = Num 0" "lastInstruction st_wait = Some 0xF00A"
  by (simp_all add: st_wait_def run_simps)


lemma st_timer_batch:
  "delayTimer (fold (cycle_round (\<lambda>k. 0)) [0..<10] st_timer) = Num 3"
  "soundTimer (fold (cycle_round (\<lambda>k. 0)) [0..<10] st_timer) = Num 0"
  "pc (fold (cycle_round (\<lambda>k. 0)) [0..<10] st_timer) = Num 0x204"
  by (simp_all add: st_timer_def run_simps cycle_round_def)

text \<open>
  Claim C5: \<^verbatim>\<open>emulateCycle()\<close> does nothing when \<open>paused\<close>; otherwise it decrements
  each of the two timers once, stopping at 0, after the instruction batch and whatever the
  batch did; while \<open>waitingForKeyPress\<close> is set the batch executes no instruction and
  the timers still tick. (\<open>d\<close> and \<open>e\<close> are the timer values after the batch.)
\<close>

theorem emulateCycle_paused_and_timers:
  "(paused s \<longrightarrow> emulateCycle rnd s = s)
   \<and> (\<not> paused s \<and> delayTimer (fold (cycle_round rnd) [0..<nat (speed s)] s) = Num d
        \<and> soundTimer (fold (cycle_round rnd) [0..<nat (speed s)] s) = Num e \<and> 0 \<le> d \<and> 0 \<le> e \<longrightarrow>
        emulateCycle rnd s =
          (fold (cycle_round rnd) [0..<nat (speed s)] s)
            \<lparr>delayTimer := Num (max 0 (d - 1)), soundTimer := Num (max 0 (e - 1))\<rparr>)
   \<and> (\<not> paused s \<and> waitingForKeyPress s \<and> delayTimer s = Num d \<and> soundTimer s = Num e
        \<and> 0 \<le> d \<and> 0 \<le> e \<longrightarrow>
        emulateCycle rnd s =
          s\<lparr>delayTimer := Num (max 0 (d - 1)), soundTimer := Num (max 0 (e - 1))\<rparr>)"
proof -
  have tick: "tick_timers t = t\<lparr>delayTimer := Num (max 0 (d - 1)), soundTimer := Num (max 0 (e - 1))\<rparr>"
    if "delayTimer t = Num d" "soundTimer t = Num e" "0 \<le> d" "0 \<le> e" for t :: chip8
    using that by (cases "d = 0"; cases "e = 0") (simp_all add: tick_timers_def Let_def max_def)
  show ?thesis
    by (auto simp: emulateCycle_def fold_cycle_round_waiting intro: tick)
qed

theorem emulateCycle_paused_and_timers_witness:
  "emulateCycle (\<lambda>k. 0) (st_timer\<lparr>paused := True\<rparr>) = st_timer\<lparr>paused := True\<rparr>
   \<and> delayTimer (emulateCycle (\<lambda>k. 0) st_timer) = Num 2
   \<and> soundTimer (emulateCycle (\<lambda>k. 0) st_timer) = Num 0
   \<and> emulateCycle (\<lambda>k. 0) st_wait = st_wait\<lparr>delayTimer := Num 0, soundTimer := Num 0\<rparr>"
proof -
  have 1: "emulateCycle (\<lambda>k. 0) (st_timer\<lparr>paused := True\<rparr>) = st_timer\<lparr>paused := True\<rparr>"
    using emulateCycle_paused_and_timers[of "st_timer\<lparr>paused := True\<rparr>" "\<lambda>k. 0"] by simp
  have 2: "emulateCycle (\<lambda>k. 0) st_timer =
          (fold (cycle_round (\<lambda>k. 0)) [0..<10] st_timer)
            \<lparr>delayTimer := Num (max 0 (3 - 1)), soundTimer := Num (max 0 (0 - 1))\<rparr>"
    using emulateCycle_paused_and_timers[of st_timer "\<lambda>k. 0" 3 0]
    by (simp add: st_timer_batch st_timer_facts)
  have 3: "emulateCycle (\<lambda>k. 0) st_wait =
          st_wait\<lparr>delayTimer := Num (max 0 (0 - 1)), soundTimer := Num (max 0 (0 - 1))\<rparr>"
    using emulateCycle_paused_and_timers[of st_wait "\<lambda>k. 0" 0 0]
    by (simp add: st_wait_facts)
  show ?thesis by (simp add: 1 2 3)
qed

text \<open>
  The flag \<open>waitingForKeyPress\<close> is written by FX0A only and read by no instruction:
  setting it before an instruction runs commutes with the instruction, except for FX0A,
  which overwrites it.
\<close>

lemma fold_commute:
  assumes "\<And>k t. f k (u t) = u (f k t)"
  shows "fold f ks (u t) = u (fold f ks t)"
  by (induction ks arbitrary: t) (simp_all add: assms)

lemma draw_sprite_flag:
  "draw_sprite x y n (t\<lparr>waitingForKeyPress := b\<rparr>)
     = (draw_sprite x y n t)\<lparr>waitingForKeyPress := b\<rparr>"
proof -
  have px: "draw_pixel py px (u\<lparr>waitingForKeyPress := b\<rparr>)
      = (draw_pixel py px u)\<lparr>waitingForKeyPress := b\<rparr>" for py px u
    by (simp add: draw_pixel_def Let_def)
  have col: "draw_col xc yc row w col (u\<lparr>waitingForKeyPress := b\<rparr>)
      = (draw_col xc yc row w col u)\<lparr>waitingForKeyPress := b\<rparr>" for xc yc row w col u
    by (simp add: draw_col_def px)
  have cols: "fold (draw_col xc yc row sb) ks (u\<lparr>waitingForKeyPress := b\<rparr>)
      = (fold (draw_col xc yc row sb) ks u)\<lparr>waitingForKeyPress := b\<rparr>" for xc yc row sb ks u
    by (rule fold_commute[where u = "\<lambda>t. t\<lparr>waitingForKeyPress := b\<rparr>"]) (rule col)
  have row: "draw_row xc yc row (u\<lparr>waitingForKeyPress := b\<rparr>)
      = (draw_row xc yc row u)\<lparr>waitingForKeyPress := b\<rparr>" for xc yc row u
    by (simp add: draw_row_def Let_def cols)
  have rows: "fold (draw_row xc yc) ks (u\<lparr>waitingForKeyPress := b\<rparr>)
      = (fold (draw_row xc yc) ks u)\<lparr>waitingForKeyPress := b\<rparr>" for xc yc ks u
    by (rule fold_commute[where u = "\<lambda>t. t\<lparr>waitingForKeyPress := b\<rparr>"]) (rule row)
  have sel: "v (t\<lparr>waitingForKeyPress := b\<rparr>) = v t" by simp
  have e: "(t\<lparr>waitingForKeyPress := b\<rparr>)\<lparr>v := (v t)(0xF := Num 0)\<rparr>
      = (t\<lparr>v := (v t)(0xF := Num 0)\<rparr>)\<lparr>waitingForKeyPress := b\<rparr>" by simp
  show ?thesis
    unfolding draw_sprite_def Let_def sel e rows by simp
qed

lemma exec_F000_flag:
  "exec_F000 x opcode (t\<lparr>waitingForKeyPress := b\<rparr>)
     = (if and32 opcode 0x00FF = 0x0A then exec_F000 x opcode t
        else (exec_F000 x opcode t)\<lparr>waitingForKeyPress := b\<rparr>)"
proof -
  have f55: "fold (\<lambda>reg t. t\<lparr>memory := (memory t)(js_add (i_reg t) (Num (int reg)) := v t (int reg))\<rparr>)
        ks (u\<lparr>waitingForKeyPress := b\<rparr>)
      = (fold (\<lambda>reg t. t\<lparr>memory := (memory t)(js_add (i_reg t) (Num (int reg)) := v t (int reg))\<rparr>)
        ks u)\<lparr>waitingForKeyPress := b\<rparr>" for ks and u :: chip8
    by (rule fold_commute[where u = "\<lambda>t. t\<lparr>waitingForKeyPress := b\<rparr>"]) simp
  have f65: "fold (\<lambda>reg t. t\<lparr>v := (v t)(int reg := memory t (js_add (i_reg t) (Num (int reg))))\<rparr>)
        ks (u\<lparr>waitingForKeyPress := b\<rparr>)
      = (fold (\<lambda>reg t. t\<lparr>v := (v t)(int reg := memory t (js_add (i_reg t) (Num (int reg))))\<rparr>)
        ks u)\<lparr>waitingForKeyPress := b\<rparr>" for ks and u :: chip8
    by (rule fold_commute[where u = "\<lambda>t. t\<lparr>waitingForKeyPress := b\<rparr>"]) simp
  show ?thesis
    unfolding exec_F000_def Let_def warn_unknown_def
    by (simp add: f55 f65)
qed

lemma execute_flag:
  "execute rnd opcode (t\<lparr>waitingForKeyPress := b\<rparr>)
     = (if and32 opcode 0xF000 = 0xF000 \<and> and32 opcode 0x00FF = 0x0A then execute rnd opcode t
        else (execute rnd opcode t)\<lparr>waitingForKeyPress := b\<rparr>)"
proof (cases opcode rule: high_nibble_cases)
  case 1
  then show ?thesis by (simp add: execute_def Let_def exec_0000_def warn_unknown_def)
next
  case 9
  then show ?thesis by (simp add: execute_def Let_def exec_8000_def warn_unknown_def)
next
  case 14
  then show ?thesis by (simp add: execute_def Let_def draw_sprite_flag)
next
  case 15
  then show ?thesis by (simp add: execute_def Let_def exec_E000_def warn_unknown_def skip_def)
next
  case 16
  then show ?thesis by (simp add: execute_def Let_def exec_F000_flag)
qed (simp_all add: execute_def Let_def skip_def)

lemma execute_fx0a_sets_flag:
  assumes "and32 opcode 0xF000 = 0xF000" "and32 opcode 0x00FF = 0x0A"
  shows "waitingForKeyPress (execute rnd opcode t)"
  using assms by (simp add: execute_def exec_F000_def Let_def)

text \<open>
  Claim C4 says that \<^verbatim>\<open>executeInstruction()\<close> itself does nothing while
  \<open>waitingForKeyPress\<close> is set. The function does not read the flag: after FX0A has set
  it, a further call fetches and executes the next instruction (here 6005).
\<close>

theorem executeInstruction_ignores_wait_counterexample:
  "waitingForKeyPress st_wait \<and> pc st_wait = Num 0x204 \<and> v st_wait 0 = Num 0
   \<and> lastInstruction st_wait = Some 0xF00A
   \<and> pc (executeInstruction 0 st_wait) = Num 0x206
   \<and> v (executeInstruction 0 st_wait) 0 = Num 5
   \<and> lastInstruction (executeInstruction 0 st_wait) = Some 0x6005
   \<and> executeInstruction 0 st_wait \<noteq> st_wait"
proof -
  have a: "waitingForKeyPress st_wait \<and> pc st_wait = Num 0x204 \<and> v st_wait 0 = Num 0
   \<and> lastInstruction st_wait = Some 0xF00A
   \<and> pc (executeInstruction 0 st_wait) = Num 0x206
   \<and> v (executeInstruction 0 st_wait) 0 = Num 5
   \<and> lastInstruction (executeInstruction 0 st_wait) = Some 0x6005"
    by (simp add: st_wait_def run_simps)
  then have "pc (executeInstruction 0 st_wait) \<noteq> pc st_wait" by simp
  then have "executeInstruction 0 st_wait \<noteq> st_wait" by auto
  with a show ?thesis by simp
qed

text \<open>
  C4, amended: the check of \<open>waitingForKeyPress\<close> is in \<^verbatim>\<open>emulateCycle()\<close>. While the
  flag is set, \<^verbatim>\<open>emulateCycle()\<close> fetches no instruction and changes nothing but the
  two timers, until \<^verbatim>\<open>keyPress\<close> clears the flag. \<^verbatim>\<open>executeInstruction()\<close>, called
  directly, fetches the opcode at \<open>pc\<close> and executes it whatever the flag says: its
  result on a waiting machine is its result on the same machine with the flag cleared,
  the flag field aside.
\<close>

theorem wait_gate_in_emulateCycle:
  assumes "waitingForKeyPress s"
  shows "(\<exists>d e. emulateCycle rnd s = s\<lparr>delayTimer := d, soundTimer := e\<rparr>)
       \<and> lastInstruction (executeInstruction r s) = Some (fetch s)
       \<and> executeInstruction r s
           = (executeInstruction r (s\<lparr>waitingForKeyPress := False\<rparr>))\<lparr>waitingForKeyPress := True\<rparr>
       \<and> \<not> waitingForKeyPress (keyPress k s)"
proof -
  have tick: "\<exists>d e. tick_timers t = t\<lparr>delayTimer := d, soundTimer := e\<rparr>" for t :: chip8
  proof -
    have "tick_timers t = t\<lparr>delayTimer := delayTimer (tick_timers t),
        soundTimer := soundTimer (tick_timers t)\<rparr>"
      by (simp add: tick_timers_def Let_def)
    then show ?thesis by blast
  qed
  have "\<exists>d e. emulateCycle rnd s = s\<lparr>delayTimer := d, soundTimer := e\<rparr>"
  proof (cases "paused s")
    case True
    then have "emulateCycle rnd s = s\<lparr>delayTimer := delayTimer s, soundTimer := soundTimer s\<rparr>"
      by (simp add: emulateCycle_def)
    then show ?thesis by blast
  next
    case False
    then show ?thesis
      using tick[of s] by (simp add: emulateCycle_def fold_cycle_round_waiting assms)
  qed
  moreover have "lastInstruction (executeInstruction r s) = Some (fetch s)"
    by (simp add: executeInstruction_def Let_def execute_untouched skip_def)
  moreover have "executeInstruction r s
      = (executeInstruction r (s\<lparr>waitingForKeyPress := False\<rparr>))\<lparr>waitingForKeyPress := True\<rparr>"
  proof -
    define s' where "s' = s\<lparr>waitingForKeyPress := False\<rparr>"
    define t where "t = skip (s'\<lparr>lastInstruction := Some (fetch s')\<rparr>)"
    have s: "s = s'\<lparr>waitingForKeyPress := True\<rparr>" using assms by (simp add: s'_def)
    have f: "fetch (s'\<lparr>waitingForKeyPress := True\<rparr>) = fetch s'" by (simp add: fetch_def)
    have u: "skip (s'\<lparr>waitingForKeyPress := True, lastInstruction := Some (fetch s')\<rparr>)
        = t\<lparr>waitingForKeyPress := True\<rparr>"
      by (simp add: t_def skip_def)
    have a: "executeInstruction r (s'\<lparr>waitingForKeyPress := True\<rparr>)
        = execute r (fetch s') (t\<lparr>waitingForKeyPress := True\<rparr>)"
      unfolding executeInstruction_def Let_def f u by (rule refl)
    have b: "executeInstruction r s' = execute r (fetch s') t"
      by (simp add: executeInstruction_def Let_def t_def)
    have "execute r (fetch s') (t\<lparr>waitingForKeyPress := True\<rparr>)
        = (execute r (fetch s') t)\<lparr>waitingForKeyPress := True\<rparr>"
    proof (cases "and32 (fetch s') 0xF000 = 0xF000 \<and> and32 (fetch s') 0x00FF = 0x0A")
      case True
      then have "waitingForKeyPress (execute r (fetch s') t)"
        by (simp add: execute_fx0a_sets_flag)
      then have 1: "(execute r (fetch s') t)\<lparr>waitingForKeyPress := True\<rparr> = execute r (fetch s') t"
        by simp
      have 2: "execute r (fetch s') (t\<lparr>waitingForKeyPress := True\<rparr>) = execute r (fetch s') t"
        by (subst execute_flag) (rule if_P[OF True])
      show ?thesis by (simp only: 1 2)
    next
      case False
      show ?thesis by (simp only: execute_flag False if_False)
    qed
    with a b show ?thesis unfolding s'_def[symmetric] by (subst s) simp
  qed
  moreover have "\<not> waitingForKeyPress (keyPress k s)"
    by (simp add: keyPress_def Let_def assms)
  ultimately show ?thesis by blast
qed

theorem wait_gate_in_emulateCycle_witness:
  "(\<exists>d e. emulateCycle (\<lambda>k. 0) st_wait = st_wait\<lparr>delayTimer := d, soundTimer := e\<rparr>)
   \<and> lastInstruction (executeInstruction 0 st_wait) = Some 0x6005
   \<and> executeInstruction 0 st_wait
       = (executeInstruction 0 (st_wait\<lparr>waitingForKeyPress := False\<rparr>))\<lparr>waitingForKeyPress := True\<rparr>
   \<and> v (executeInstruction 0 (st_wait\<lparr>waitingForKeyPress := False\<rparr>)) 0 = Num 5
   \<and> \<not> waitingForKeyPress (keyPress (Num 0xA) st_wait)"
proof -
  have w: "waitingForKeyPress st_wait" by (simp add: st_wait_facts)
  have x: "v (executeInstruction 0 (st_wait\<lparr>waitingForKeyPress := False\<rparr>)) 0 = Num 5"
    by (simp add: st_wait_def run_simps)
  have f: "fetch st_wait = 0x6005" by (simp add: st_wait_facts)
  show ?thesis
    using wait_gate_in_emulateCycle[OF w, of "\<lambda>k. 0" 0 "Num 0xA"] x unfolding f by blast
qed

section \<open>DXYN: drawing the same sprite twice\<close>

text \<open>
  A loop whose rounds toggle pairwise disjoint sets of pixels toggles exactly the union
  of the sets, and raises the flag if and only if one of the pixels was set at the start.
  Both loops of DXYN have this shape: the columns of one sprite row are at most 8
  consecutive positions modulo 64, the rows at most 15 consecutive positions modulo 32.
\<close>

lemma mod_shift_inj:
  assumes "c < k" and "k < m"
  shows "(a + int c) mod int m \<noteq> (a + int k) mod int m"
proof
  assume "(a + int c) mod int m = (a + int k) mod int m"
  then have "(a + int k) mod int m = (a + int c) mod int m" by simp
  then have "int m dvd (a + int k) - (a + int c)"
    by (simp only: mod_eq_dvd_iff)
  then have "int m dvd int (k - c)" using assms(1) by (simp add: of_nat_diff)
  then have "m dvd k - c" by (simp only: int_dvd_int_iff)
  moreover have "0 < k - c" "k - c < m" using assms by auto
  ultimately show False using nat_dvd_not_less by blast
qed

lemma rem_trunc_nonneg: "0 \<le> a \<Longrightarrow> rem_trunc a d = a mod d"
  by (simp add: rem_trunc_def)

lemma and32_nonneg: "0 \<le> m \<Longrightarrow> m < 2147483648 \<Longrightarrow> 0 \<le> and32 a m"
  by (simp add: and32_def int32_id)

lemma fold_toggle:
  fixes D :: "'s \<Rightarrow> 'p \<Rightarrow> int" and V :: "'s \<Rightarrow> int \<Rightarrow> jsval"
  assumes Q0: "Q s"
    and Qstep: "\<And>j t. j < n \<Longrightarrow> Q t \<Longrightarrow> Q (f j t)"
    and Dstep: "\<And>j t p. j < n \<Longrightarrow> Q t \<Longrightarrow>
                  D (f j t) p = (if p \<in> A j then xor32 (D t p) 1 else D t p)"
    and Vstep: "\<And>j t. j < n \<Longrightarrow> Q t \<Longrightarrow>
                  V (f j t) = (if \<exists>p\<in>A j. D t p = 1 then (V t)(0xF := Num 1) else V t)"
    and disj: "\<And>i j. i < j \<Longrightarrow> j < n \<Longrightarrow> A i \<inter> A j = {}"
  shows "Q (fold f [0..<n] s)"
    and "D (fold f [0..<n] s) p = (if \<exists>j<n. p \<in> A j then xor32 (D s p) 1 else D s p)"
    and "V (fold f [0..<n] s) =
           (if \<exists>j<n. \<exists>p\<in>A j. D s p = 1 then (V s)(0xF := Num 1) else V s)"
proof -
  have main: "k \<le> n \<Longrightarrow>
      Q (fold f [0..<k] s)
      \<and> (\<forall>p. D (fold f [0..<k] s) p = (if \<exists>j<k. p \<in> A j then xor32 (D s p) 1 else D s p))
      \<and> V (fold f [0..<k] s) =
           (if \<exists>j<k. \<exists>p\<in>A j. D s p = 1 then (V s)(0xF := Num 1) else V s)" for k
  proof (induction k)
    case 0
    show ?case by (simp add: Q0)
  next
    case (Suc k)
    let ?t = "fold f [0..<k] s"
    from Suc have k: "k < n" and Qt: "Q ?t"
      and Dt: "\<And>p. D ?t p = (if \<exists>j<k. p \<in> A j then xor32 (D s p) 1 else D s p)"
      and Vt: "V ?t = (if \<exists>j<k. \<exists>p\<in>A j. D s p = 1 then (V s)(0xF := Num 1) else V s)"
      by simp_all
    have fresh: "p \<in> A k \<Longrightarrow> \<not> (\<exists>j<k. p \<in> A j)" for p
      using disj[of _ k] k by blast
    have same: "D ?t p = D s p" if "p \<in> A k" for p
      by (simp only: Dt if_not_P[OF fresh[OF that]])
    have 1: "Q (fold f [0..<Suc k] s)"
      by (simp add: Qstep[OF k Qt])
    have 2: "D (fold f [0..<Suc k] s) p
               = (if \<exists>j<Suc k. p \<in> A j then xor32 (D s p) 1 else D s p)" for p
    proof (cases "p \<in> A k")
      case True
      then show ?thesis by (auto simp add: Dstep[OF k Qt] same)
    next
      case False
      then have "(\<exists>j<Suc k. p \<in> A j) = (\<exists>j<k. p \<in> A j)"
        by (auto simp: less_Suc_eq)
      with False show ?thesis by (simp add: Dstep[OF k Qt] Dt)
    qed
    have e: "(\<exists>p\<in>A k. D ?t p = 1) = (\<exists>p\<in>A k. D s p = 1)"
      using same by auto
    have 3: "V (fold f [0..<Suc k] s) =
           (if \<exists>j<Suc k. \<exists>p\<in>A j. D s p = 1 then (V s)(0xF := Num 1) else V s)"
    proof (cases "\<exists>p\<in>A k. D s p = 1")
      case True
      then have "\<exists>j<Suc k. \<exists>p\<in>A j. D s p = 1" by blast
      with True show ?thesis by (simp add: Vstep[OF k Qt] e Vt)
    next
      case False
      then have "(\<exists>j<Suc k. \<exists>p\<in>A j. D s p = 1) = (\<exists>j<k. \<exists>p\<in>A j. D s p = 1)"
        by (auto simp: less_Suc_eq)
      with False show ?thesis by (simp add: Vstep[OF k Qt] e Vt)
    qed
    from 1 2 3 show ?case by blast
  qed
  from main[of n] show "Q (fold f [0..<n] s)"
    and "D (fold f [0..<n] s) p = (if \<exists>j<n. p \<in> A j then xor32 (D s p) 1 else D s p)"
    and "V (fold f [0..<n] s) =
           (if \<exists>j<n. \<exists>p\<in>A j. D s p = 1 then (V s)(0xF := Num 1) else V s)"
    by simp_all
qed


lemma draw_pixel_fields:
  "display (draw_pixel py px s) = (display s)(py := (display s py)(px := xor32 (display s py px) 1))"
  "v (draw_pixel py px s) = (if display s py px = 1 then (v s)(0xF := Num 1) else v s)"
  by (simp_all add: draw_pixel_def Let_def)

lemma draw_col_fields:
  assumes "0 \<le> xc" "0 \<le> yc"
  shows "display (draw_col xc yc row b col s) py px =
     (if and32 (toInt32 b) (shr32 0x80 col) \<noteq> 0 \<and> py = (yc + int row) mod 32
          \<and> px = (xc + int col) mod 64
      then xor32 (display s py px) 1 else display s py px)"
    and "v (draw_col xc yc row b col s) =
     (if and32 (toInt32 b) (shr32 0x80 col) \<noteq> 0
          \<and> display s ((yc + int row) mod 32) ((xc + int col) mod 64) = 1
      then (v s)(0xF := Num 1) else v s)"
  using assms
  by (simp_all add: draw_col_def draw_pixel_fields rem_trunc_nonneg DISPLAY_HEIGHT_def
      DISPLAY_WIDTH_def)

lemma draw_row_preserves:
  assumes "\<And>t V. g (t\<lparr>v := V\<rparr>) = g (t::chip8)" and "\<And>t D. g (t\<lparr>display := D\<rparr>) = g t"
  shows "g (draw_row xc yc row s) = g s"
proof -
  have px: "g (draw_pixel py px t) = g t" for py px t
    by (simp add: draw_pixel_def Let_def assms)
  have col: "g (draw_col xc yc row b col t) = g t" for b col t
    by (simp add: draw_col_def px)
  show ?thesis
    unfolding draw_row_def Let_def by (rule fold_preserves) (rule col)
qed

lemma draw_row_fields:
  assumes "0 \<le> xc" "0 \<le> yc"
  shows "display (draw_row xc yc row s) py px =
     (if py = (yc + int row) mod 32
         \<and> (\<exists>c<8. sprite_bit s row c \<and> px = (xc + int c) mod 64)
      then xor32 (display s py px) 1 else display s py px)"
    and "v (draw_row xc yc row s) =
     (if \<exists>c<8. sprite_bit s row c
              \<and> display s ((yc + int row) mod 32) ((xc + int c) mod 64) = 1
      then (v s)(0xF := Num 1) else v s)"
proof -
  define b where "b = memory s (js_add (i_reg s) (Num (int row)))"
  define A where "A = (\<lambda>c. if and32 (toInt32 b) (shr32 0x80 c) \<noteq> 0
      then {((yc + int row) mod 32, (xc + int c) mod 64)} else {})"
  define D where "D = (\<lambda>(t::chip8) (p::int \<times> int). display t (fst p) (snd p))"
  have bit: "sprite_bit s row c = (and32 (toInt32 b) (shr32 0x80 c) \<noteq> 0)" for c
    by (simp add: sprite_bit_def b_def)
  have Dstep: "D (draw_col xc yc row b j t) p = (if p \<in> A j then xor32 (D t p) 1 else D t p)"
    for j t p
    by (cases p) (auto simp add: D_def A_def draw_col_fields[OF assms])
  have Vstep: "v (draw_col xc yc row b j t)
      = (if \<exists>p\<in>A j. D t p = 1 then (v t)(0xF := Num 1) else v t)" for j t
    by (simp add: D_def A_def draw_col_fields[OF assms])
  have disj: "A i \<inter> A j = {}" if "i < j" "j < 8" for i j
    using mod_shift_inj[OF that(1), of 64 xc] that(2) by (auto simp: A_def split: if_splits)
  have T2: "D (fold (draw_col xc yc row b) [0..<8] s) p
      = (if \<exists>j<8. p \<in> A j then xor32 (D s p) 1 else D s p)" for p
    by (rule fold_toggle(2)[where Q = "\<lambda>_. True" and V = v])
       (simp_all add: Dstep Vstep disj)
  have T3: "v (fold (draw_col xc yc row b) [0..<8] s)
      = (if \<exists>j<8. \<exists>p\<in>A j. D s p = 1 then (v s)(0xF := Num 1) else v s)"
    by (rule fold_toggle(3)[where Q = "\<lambda>_. True"])
       (simp_all add: Dstep Vstep disj)
  have e2: "(\<exists>j<8. (py, px) \<in> A j)
      = (py = (yc + int row) mod 32 \<and> (\<exists>c<8. sprite_bit s row c \<and> px = (xc + int c) mod 64))"
    by (auto simp: A_def bit split: if_splits)
  have e3: "(\<exists>j<8. \<exists>p\<in>A j. D s p = 1)
      = (\<exists>c<8. sprite_bit s row c
              \<and> display s ((yc + int row) mod 32) ((xc + int c) mod 64) = 1)"
    by (auto simp: A_def D_def bit split: if_splits)
  show "display (draw_row xc yc row s) py px =
     (if py = (yc + int row) mod 32
         \<and> (\<exists>c<8. sprite_bit s row c \<and> px = (xc + int c) mod 64)
      then xor32 (display s py px) 1 else display s py px)"
  proof -
    have "display (draw_row xc yc row s) py px
        = D (fold (draw_col xc yc row b) [0..<8] s) (py, px)"
      by (simp add: draw_row_def Let_def b_def D_def)
    also have "\<dots> = (if \<exists>j<8. (py, px) \<in> A j then xor32 (D s (py, px)) 1 else D s (py, px))"
      by (rule T2)
    also have "\<dots> = (if py = (yc + int row) mod 32
         \<and> (\<exists>c<8. sprite_bit s row c \<and> px = (xc + int c) mod 64)
      then xor32 (display s py px) 1 else display s py px)"
      unfolding e2 by (simp only: D_def fst_conv snd_conv)
    finally show ?thesis .
  qed
  show "v (draw_row xc yc row s) =
     (if \<exists>c<8. sprite_bit s row c
              \<and> display s ((yc + int row) mod 32) ((xc + int c) mod 64) = 1
      then (v s)(0xF := Num 1) else v s)"
  proof -
    have "v (draw_row xc yc row s) = v (fold (draw_col xc yc row b) [0..<8] s)"
      by (simp add: draw_row_def Let_def b_def)
    also have "\<dots> = (if \<exists>j<8. \<exists>p\<in>A j. D s p = 1 then (v s)(0xF := Num 1) else v s)"
      by (rule T3)
    finally show ?thesis unfolding e3 .
  qed
qed


lemma draw_rows_fields:
  assumes "0 \<le> xc" "0 \<le> yc" "h \<le> 32"
  shows "display (fold (draw_row xc yc) [0..<h] s) py px =
     (if \<exists>r<h. \<exists>c<8. sprite_bit s r c \<and> py = (yc + int r) mod 32
                       \<and> px = (xc + int c) mod 64
      then xor32 (display s py px) 1 else display s py px)"
    and "v (fold (draw_row xc yc) [0..<h] s) =
     (if \<exists>r<h. \<exists>c<8. sprite_bit s r c
              \<and> display s ((yc + int r) mod 32) ((xc + int c) mod 64) = 1
      then (v s)(0xF := Num 1) else v s)"
proof -
  define Q where "Q = (\<lambda>t::chip8. memory t = memory s \<and> i_reg t = i_reg s)"
  define A where "A = (\<lambda>r. {p. fst p = (yc + int r) mod 32
      \<and> (\<exists>c<8. sprite_bit s r c \<and> snd p = (xc + int c) mod 64)})"
  define D where "D = (\<lambda>(t::chip8) (p::int \<times> int). display t (fst p) (snd p))"
  have Q0: "Q s" by (simp add: Q_def)
  have Qstep: "Q (draw_row xc yc j t)" if "Q t" for j t
    using that unfolding Q_def
    by (simp add: draw_row_preserves[where g = memory] draw_row_preserves[where g = i_reg])
  have bit: "sprite_bit t r c = sprite_bit s r c" if "Q t" for t r c
    using that by (simp add: sprite_bit_def Q_def)
  have Dstep: "D (draw_row xc yc j t) p = (if p \<in> A j then xor32 (D t p) 1 else D t p)"
    if "Q t" for j t p
  proof -
    have m: "(p \<in> A j) = (fst p = (yc + int j) mod 32
        \<and> (\<exists>c<8. sprite_bit t j c \<and> snd p = (xc + int c) mod 64))"
      by (simp add: A_def bit[OF that])
    show ?thesis by (simp only: D_def draw_row_fields(1)[OF assms(1,2)] m)
  qed
  have Vstep: "v (draw_row xc yc j t)
      = (if \<exists>p\<in>A j. D t p = 1 then (v t)(0xF := Num 1) else v t)" if "Q t" for j t
  proof -
    have "(\<exists>p\<in>A j. D t p = 1) = (\<exists>c<8. sprite_bit t j c
              \<and> display t ((yc + int j) mod 32) ((xc + int c) mod 64) = 1)"
      by (auto simp: A_def D_def bit[OF that])
    then show ?thesis by (simp only: draw_row_fields(2)[OF assms(1,2)])
  qed
  have disj: "A i \<inter> A j = {}" if "i < j" "j < h" for i j
  proof -
    have "j < 32" using that(2) assms(3) by simp
    from mod_shift_inj[OF that(1) this, of yc] show ?thesis by (auto simp: A_def)
  qed
  have T2: "D (fold (draw_row xc yc) [0..<h] s) p
      = (if \<exists>j<h. p \<in> A j then xor32 (D s p) 1 else D s p)" for p
    by (rule fold_toggle(2)[where Q = Q and V = v])
       (simp_all add: Q0 Qstep Dstep Vstep disj)
  have T3: "v (fold (draw_row xc yc) [0..<h] s)
      = (if \<exists>j<h. \<exists>p\<in>A j. D s p = 1 then (v s)(0xF := Num 1) else v s)"
    by (rule fold_toggle(3)[where Q = Q])
       (simp_all add: Q0 Qstep Dstep Vstep disj)
  have e2: "(\<exists>j<h. (py, px) \<in> A j)
      = (\<exists>r<h. \<exists>c<8. sprite_bit s r c \<and> py = (yc + int r) mod 32
                       \<and> px = (xc + int c) mod 64)"
    by (auto simp: A_def)
  have e3: "(\<exists>j<h. \<exists>p\<in>A j. D s p = 1)
      = (\<exists>r<h. \<exists>c<8. sprite_bit s r c
              \<and> display s ((yc + int r) mod 32) ((xc + int c) mod 64) = 1)"
    by (auto simp: A_def D_def)
  show "display (fold (draw_row xc yc) [0..<h] s) py px =
     (if \<exists>r<h. \<exists>c<8. sprite_bit s r c \<and> py = (yc + int r) mod 32
                       \<and> px = (xc + int c) mod 64
      then xor32 (display s py px) 1 else display s py px)"
  proof -
    have "display (fold (draw_row xc yc) [0..<h] s) py px
        = D (fold (draw_row xc yc) [0..<h] s) (py, px)"
      by (simp only: D_def fst_conv snd_conv)
    also have "\<dots> = (if \<exists>j<h. (py, px) \<in> A j then xor32 (D s (py, px)) 1 else D s (py, px))"
      by (rule T2)
    also have "\<dots> = (if \<exists>r<h. \<exists>c<8. sprite_bit s r c \<and> py = (yc + int r) mod 32
                       \<and> px = (xc + int c) mod 64
      then xor32 (display s py px) 1 else display s py px)"
      unfolding e2 by (simp only: D_def fst_conv snd_conv)
    finally show ?thesis .
  qed
  show "v (fold (draw_row xc yc) [0..<h] s) =
     (if \<exists>r<h. \<exists>c<8. sprite_bit s r c
              \<and> display s ((yc + int r) mod 32) ((xc + int c) mod 64) = 1
      then (v s)(0xF := Num 1) else v s)"
    using T3 unfolding e3 .
qed

lemma draw_sprite_fields:
  assumes "n \<le> 32"
  shows "display (draw_sprite x y n s) py px =
     (if \<exists>r<nat n. \<exists>c<8. sprite_bit s r c
            \<and> py = (and32 (toInt32 (v s y)) 0xFF + int r) mod 32
            \<and> px = (and32 (toInt32 (v s x)) 0xFF + int c) mod 64
      then xor32 (display s py px) 1 else display s py px)"
    and "v (draw_sprite x y n s) =
     (v s)(0xF := (if \<exists>r<nat n. \<exists>c<8. sprite_bit s r c
            \<and> display s ((and32 (toInt32 (v s y)) 0xFF + int r) mod 32)
                         ((and32 (toInt32 (v s x)) 0xFF + int c) mod 64) = 1
      then Num 1 else Num 0))"
proof -
  let ?xc = "and32 (toInt32 (v s x)) 0xFF" and ?yc = "and32 (toInt32 (v s y)) 0xFF"
  let ?s1 = "s\<lparr>v := (v s)(0xF := Num 0)\<rparr>"
  have xc: "0 \<le> ?xc" and yc: "0 \<le> ?yc" by (simp_all add: and32_nonneg)
  have h: "nat n \<le> 32" using assms by simp
  have bit: "sprite_bit ?s1 r c = sprite_bit s r c" for r c
    by (simp add: sprite_bit_def)
  have ds: "display ?s1 = display s" and vs: "v ?s1 = (v s)(0xF := Num 0)" by simp_all
  have d: "display (draw_sprite x y n s) py px
      = display (fold (draw_row ?xc ?yc) [0..<nat n] ?s1) py px"
    by (simp add: draw_sprite_def Let_def)
  have vv: "v (draw_sprite x y n s) = v (fold (draw_row ?xc ?yc) [0..<nat n] ?s1)"
    by (simp add: draw_sprite_def Let_def)
  show "display (draw_sprite x y n s) py px =
     (if \<exists>r<nat n. \<exists>c<8. sprite_bit s r c
            \<and> py = (?yc + int r) mod 32 \<and> px = (?xc + int c) mod 64
      then xor32 (display s py px) 1 else display s py px)"
    unfolding d draw_rows_fields(1)[OF xc yc h] bit ds by (rule refl)
  show "v (draw_sprite x y n s) =
     (v s)(0xF := (if \<exists>r<nat n. \<exists>c<8. sprite_bit s r c
            \<and> display s ((?yc + int r) mod 32) ((?xc + int c) mod 64) = 1
      then Num 1 else Num 0))"
    unfolding vv draw_rows_fields(2)[OF xc yc h] bit ds vs by auto
qed


lemma and32_le: "0 \<le> m \<Longrightarrow> m < 2147483648 \<Longrightarrow> and32 a m \<le> m"
  by (simp add: and32_def int32_id AND_upper2)

lemma exec_dxyn:
  assumes "and32 (fetch s) 0xF000 = 0xD000"
  shows "executeInstruction r s =
     draw_sprite (shr32 (and32 (fetch s) 0x0F00) 8) (shr32 (and32 (fetch s) 0x00F0) 4)
       (and32 (fetch s) 0x000F) (skip (s\<lparr>lastInstruction := Some (fetch s)\<rparr>))"
  using assms by (simp add: executeInstruction_def execute_def Let_def)

lemma dxyn_frame:
  assumes "and32 (fetch s) 0xF000 = 0xD000"
  shows "memory (executeInstruction r s) = memory s"
    and "i_reg (executeInstruction r s) = i_reg s"
    and "pc (executeInstruction r s) = js_add (pc s) (Num 2)"
    and "k \<noteq> 0xF \<Longrightarrow> v (executeInstruction r s) k = v s k"
proof -
  let ?s0 = "skip (s\<lparr>lastInstruction := Some (fetch s)\<rparr>)"
  have n32: "and32 (fetch s) 0x000F \<le> 32" using and32_le[of 15 "fetch s"] by simp
  show "memory (executeInstruction r s) = memory s"
    unfolding exec_dxyn[OF assms] draw_sprite_preserves[where g = memory, simplified]
    by (simp add: skip_def)
  show "i_reg (executeInstruction r s) = i_reg s"
    unfolding exec_dxyn[OF assms] draw_sprite_preserves[where g = i_reg, simplified]
    by (simp add: skip_def)
  show "pc (executeInstruction r s) = js_add (pc s) (Num 2)"
    unfolding exec_dxyn[OF assms] draw_sprite_preserves[where g = pc, simplified]
    by (simp add: skip_def)
  show "k \<noteq> 0xF \<Longrightarrow> v (executeInstruction r s) k = v s k"
    unfolding exec_dxyn[OF assms] draw_sprite_fields(2)[OF n32]
    by (simp add: skip_def)
qed

lemma st_blank_facts:
  "fetch st_blank = 0xD001" "display st_blank = clear_display" "pc st_blank = Num 0x202"
  "i_reg st_blank = Num 0x300" "memory st_blank (Num 0x300) = Num 0"
  "memory st_blank (Num 0x204) = Num 0xD0" "memory st_blank (Num 0x205) = Num 0x01"
  by (simp_all add: st_blank_def run_simps)

lemma st_glyph_facts:
  "fetch st_glyph = 0xD005" "display st_glyph = clear_display" "pc st_glyph = Num 0x202"
  "i_reg st_glyph = Num 0x206" "memory st_glyph (Num 0x206) = Num 0xF0"
  "memory st_glyph (Num 0x204) = Num 0xD0" "memory st_glyph (Num 0x205) = Num 0x05"
  "memory st_glyph (Num 0x202) = Num 0xD0" "memory st_glyph (Num 0x203) = Num 0x05"
  by (simp_all add: st_glyph_def run_simps)

text \<open>
  Claim C6 says that two successive executions of the same DXYN on an empty framebuffer
  leave it empty and that \<open>VF = 1\<close> after the second one, for every sprite. The
  framebuffer part holds. \<open>VF\<close> is 1 only if the sprite has a set bit: with a sprite byte
  of 0 nothing is drawn and \<open>VF = 0\<close> after the second call.
\<close>

theorem draw_twice_blank_sprite_counterexample:
  "fetch st_blank = 0xD001 \<and> display st_blank = clear_display
   \<and> fetch (executeInstruction 0 st_blank) = 0xD001
   \<and> display (executeInstruction 0 (executeInstruction 0 st_blank)) = clear_display
   \<and> v (executeInstruction 0 (executeInstruction 0 st_blank)) 0xF = Num 0
   \<and> v (executeInstruction 0 (executeInstruction 0 st_blank)) 0xF \<noteq> Num 1"
  by (simp add: st_blank_def run_simps draw_row_def draw_col_def draw_pixel_def)

text \<open>
  C6, amended: starting from an all-zero framebuffer, executing the same DXYN opcode twice
  in succession with \<open>V[x]\<close> and \<open>V[y]\<close> unchanged in between (DXYN itself changes
  neither \<open>I\<close> nor the memory) leaves the framebuffer all zero again, and \<open>VF\<close> after
  the second call is 1 if one of the \<open>n\<close> sprite bytes has a bit set and 0 otherwise.
\<close>

theorem draw_twice_restores_empty_screen:
  assumes d0: "and32 (fetch s) 0xF000 = 0xD000"
    and again: "fetch (executeInstruction r1 s) = fetch s"
    and empty: "display s = clear_display"
    and vx: "v (executeInstruction r1 s) (shr32 (and32 (fetch s) 0x0F00) 8)
               = v s (shr32 (and32 (fetch s) 0x0F00) 8)"
    and vy: "v (executeInstruction r1 s) (shr32 (and32 (fetch s) 0x00F0) 4)
               = v s (shr32 (and32 (fetch s) 0x00F0) 4)"
  shows "display (executeInstruction r2 (executeInstruction r1 s)) = clear_display
       \<and> v (executeInstruction r2 (executeInstruction r1 s)) 0xF
           = (if \<exists>row<nat (and32 (fetch s) 0x000F). \<exists>col<8. sprite_bit s row col
              then Num 1 else Num 0)"
proof -
  define x where "x = shr32 (and32 (fetch s) 0x0F00) 8"
  define y where "y = shr32 (and32 (fetch s) 0x00F0) 4"
  define n where "n = and32 (fetch s) 0x000F"
  define xc where "xc = and32 (toInt32 (v s x)) 0xFF"
  define yc where "yc = and32 (toInt32 (v s y)) 0xFF"
  define s0 where "s0 = skip (s\<lparr>lastInstruction := Some (fetch s)\<rparr>)"
  define s1 where "s1 = executeInstruction r1 s"
  define t1 where "t1 = skip (s1\<lparr>lastInstruction := Some (fetch s1)\<rparr>)"
  define s2 where "s2 = executeInstruction r2 s1"
  define cov where "cov = (\<lambda>py px. \<exists>r<nat n. \<exists>c<8. sprite_bit s r c
       \<and> py = (yc + int r) mod 32 \<and> px = (xc + int c) mod 64)"
  have n32: "n \<le> 32" using and32_le[of 15 "fetch s"] by (simp add: n_def)
  have s1: "s1 = draw_sprite x y n s0"
    unfolding s1_def s0_def x_def y_def n_def by (rule exec_dxyn[OF d0])
  have s0_fields: "display s0 = clear_display" "v s0 = v s" "memory s0 = memory s"
    "i_reg s0 = i_reg s"
    by (simp_all add: s0_def skip_def empty)
  have bit0: "sprite_bit s0 r c = sprite_bit s r c" for r c
    by (simp add: sprite_bit_def s0_fields)
  have d1: "display s1 py px = (if cov py px then 1 else 0)" for py px
  proof -
    have "display s1 py px
        = (if cov py px then xor32 (display s0 py px) 1 else display s0 py px)"
      unfolding s1 draw_sprite_fields(1)[OF n32] bit0 cov_def xc_def yc_def s0_fields(2)
      by (rule refl)
    then show ?thesis by (simp add: s0_fields clear_display_def xor32_def int32_def)
  qed
  have mem1: "memory s1 = memory s0" "i_reg s1 = i_reg s0"
    unfolding s1 by (rule draw_sprite_preserves; simp)+
  have "fetch s1 = fetch s" using again by (simp add: s1_def)
  then have d0': "and32 (fetch s1) 0xF000 = 0xD000" and f1: "fetch s1 = fetch s"
    using d0 by simp_all
  have s2: "s2 = draw_sprite x y n t1"
    unfolding s2_def t1_def x_def y_def n_def f1[symmetric] by (rule exec_dxyn[OF d0'])
  have t1_fields: "display t1 = display s1" "v t1 = v s1" "memory t1 = memory s"
    "i_reg t1 = i_reg s"
    by (simp_all add: t1_def skip_def mem1 s0_fields)
  have bit1: "sprite_bit t1 r c = sprite_bit s r c" for r c
    by (simp add: sprite_bit_def t1_fields)
  have cx: "and32 (toInt32 (v t1 x)) 0xFF = xc" and cy: "and32 (toInt32 (v t1 y)) 0xFF = yc"
    using vx vy by (simp_all add: t1_fields s1_def x_def y_def xc_def yc_def)
  have d2: "display s2 py px = 0" for py px
  proof -
    have "display s2 py px
        = (if cov py px then xor32 (display t1 py px) 1 else display t1 py px)"
      unfolding s2 draw_sprite_fields(1)[OF n32] bit1 cx cy cov_def by (rule refl)
    then show ?thesis by (simp add: t1_fields d1 xor32_def int32_def)
  qed
  have hit: "(\<exists>r<nat n. \<exists>c<8. sprite_bit s r c
            \<and> display s1 ((yc + int r) mod 32) ((xc + int c) mod 64) = 1)
        = (\<exists>r<nat n. \<exists>c<8. sprite_bit s r c)"
  proof
    assume "\<exists>r<nat n. \<exists>c<8. sprite_bit s r c"
    then obtain r c where rc: "r < nat n" "c < 8" "sprite_bit s r c" by blast
    then have "cov ((yc + int r) mod 32) ((xc + int c) mod 64)"
      unfolding cov_def by blast
    then have "display s1 ((yc + int r) mod 32) ((xc + int c) mod 64) = 1"
      by (simp add: d1)
    with rc show "\<exists>r<nat n. \<exists>c<8. sprite_bit s r c
            \<and> display s1 ((yc + int r) mod 32) ((xc + int c) mod 64) = 1"
      by blast
  qed blast
  have v2: "v s2 0xF = (if \<exists>r<nat n. \<exists>c<8. sprite_bit s r c then Num 1 else Num 0)"
  proof -
    have "v s2 = (v t1)(0xF := (if \<exists>r<nat n. \<exists>c<8. sprite_bit s r c
            \<and> display t1 ((yc + int r) mod 32) ((xc + int c) mod 64) = 1
      then Num 1 else Num 0))"
      unfolding s2 draw_sprite_fields(2)[OF n32] bit1 cx cy by (rule refl)
    then show ?thesis unfolding t1_fields(1) hit by simp
  qed
  have "display s2 = clear_display"
    by (intro ext) (simp add: d2 clear_display_def)
  with v2 show ?thesis unfolding s2_def s1_def n_def by simp
qed


theorem draw_twice_restores_empty_screen_witness:
  "display (executeInstruction 0 (executeInstruction 0 st_glyph)) = clear_display
   \<and> v (executeInstruction 0 (executeInstruction 0 st_glyph)) 0xF = Num 1"
proof -
  have d0: "and32 (fetch st_glyph) 0xF000 = 0xD000"
    by (simp add: st_glyph_facts and32_def int32_def)
  have again: "fetch (executeInstruction 0 st_glyph) = fetch st_glyph"
    by (simp add: fetch_def dxyn_frame[OF d0] st_glyph_facts or32_def shl32_def int32_def)
  have vx: "v (executeInstruction 0 st_glyph) (shr32 (and32 (fetch st_glyph) 0x0F00) 8)
               = v st_glyph (shr32 (and32 (fetch st_glyph) 0x0F00) 8)"
    by (rule dxyn_frame(4)[OF d0]) (simp add: st_glyph_facts and32_def shr32_def int32_def)
  have vy: "v (executeInstruction 0 st_glyph) (shr32 (and32 (fetch st_glyph) 0x00F0) 4)
               = v st_glyph (shr32 (and32 (fetch st_glyph) 0x00F0) 4)"
    by (rule dxyn_frame(4)[OF d0]) (simp add: st_glyph_facts and32_def shr32_def int32_def)
  have "sprite_bit st_glyph 0 0"
    by (simp add: sprite_bit_def st_glyph_facts and32_def shr32_def int32_def)
  moreover have "(0::nat) < nat (and32 (fetch st_glyph) 0x000F)"
    by (simp add: st_glyph_facts and32_def int32_def)
  ultimately have "\<exists>row<nat (and32 (fetch st_glyph) 0x000F). \<exists>col<8. sprite_bit st_glyph row col"
    by (intro exI[of _ 0] conjI) simp_all
  with draw_twice_restores_empty_screen[OF d0 again st_glyph_facts(2) vx vy, of 0]
  show ?thesis by simp
qed

section \<open>The machine invariants across one instruction\<close>

text \<open>What one instruction does to \<open>sp\<close>, the stack, the delay timer, the index register
  and the program counter, and that register and memory writes store 8-bit values.\<close>

lemma fits_simps:
  "fits m (Num n) = (0 \<le> n \<and> n \<le> m)" "fits m Undefined = False" "fits m NaN = False"
  by (simp_all add: fits_def)

lemma fitsE:
  assumes "fits m w"
  obtains n where "w = Num n" "0 \<le> n" "n \<le> m"
  using assms by (cases w) (simp_all add: fits_simps)

lemma fits_and32: "0 \<le> k \<Longrightarrow> k \<le> m \<Longrightarrow> k < 2147483648 \<Longrightarrow> fits m (Num (and32 a k))"
  using and32_nonneg[of k a] and32_le[of k a] by (simp add: fits_simps)

lemma nibble_x: "0 \<le> shr32 (and32 opcode 0x0F00) 8 \<and> shr32 (and32 opcode 0x0F00) 8 \<le> 15"
proof -
  have "0 \<le> and32 opcode 0x0F00" "and32 opcode 0x0F00 \<le> 0x0F00"
    using and32_nonneg[of "0x0F00" opcode] and32_le[of "0x0F00" opcode] by simp_all
  then show ?thesis by (simp add: shr32_def int32_id, arith)
qed

lemma nibble_y: "0 \<le> shr32 (and32 opcode 0x00F0) 4 \<and> shr32 (and32 opcode 0x00F0) 4 \<le> 15"
proof -
  have "0 \<le> and32 opcode 0x00F0" "and32 opcode 0x00F0 \<le> 0x00F0"
    using and32_nonneg[of "0x00F0" opcode] and32_le[of "0x00F0" opcode] by simp_all
  then show ?thesis by (simp add: shr32_def int32_id, arith)
qed

lemma exec_0000_preserves:
  assumes "\<And>t X. g (t\<lparr>display := X\<rparr>) = g (t::chip8)" and "\<And>t X. g (t\<lparr>drawFlag := X\<rparr>) = g t"
    and "\<And>t X. g (t\<lparr>sp := X\<rparr>) = g t" and "\<And>t X. g (t\<lparr>pc := X\<rparr>) = g t"
    and "\<And>t X. g (t\<lparr>console := X\<rparr>) = g t"
  shows "g (exec_0000 opcode s) = g s"
  by (simp add: exec_0000_def Let_def warn_unknown_def assms)

lemma exec_8000_preserves:
  assumes "\<And>t X. g (t\<lparr>v := X\<rparr>) = g (t::chip8)" and "\<And>t X. g (t\<lparr>console := X\<rparr>) = g t"
  shows "g (exec_8000 x y opcode s) = g s"
  by (simp add: exec_8000_def Let_def warn_unknown_def assms)

lemma exec_E000_preserves:
  assumes "\<And>t X. g (t\<lparr>pc := X\<rparr>) = g (t::chip8)" and "\<And>t X. g (t\<lparr>console := X\<rparr>) = g t"
  shows "g (exec_E000 x opcode s) = g s"
  by (simp add: exec_E000_def Let_def warn_unknown_def skip_def assms)

lemmas sub_preserves = exec_0000_preserves exec_8000_preserves exec_E000_preserves
  exec_F000_preserves draw_sprite_preserves

lemma sp_execute:
  "sp (execute rnd opcode s) =
     (if opcode = 0x00EE then sp s - 1
      else if and32 opcode 0xF000 = 0x2000 then sp s + 1 else sp s)"
proof (cases opcode rule: high_nibble_cases)
  case 1
  then show ?thesis by (auto simp add: execute_def Let_def exec_0000_def warn_unknown_def)
next
  case 9
  then have "opcode \<noteq> 0x00EE" by (auto simp: and32_def int32_def)
  with 9 show ?thesis by (simp add: execute_def Let_def sub_preserves)
next
  case 14
  then have "opcode \<noteq> 0x00EE" by (auto simp: and32_def int32_def)
  with 14 show ?thesis by (simp add: execute_def Let_def sub_preserves)
next
  case 15
  then have "opcode \<noteq> 0x00EE" by (auto simp: and32_def int32_def)
  with 15 show ?thesis by (simp add: execute_def Let_def sub_preserves)
next
  case 16
  then have "opcode \<noteq> 0x00EE" by (auto simp: and32_def int32_def)
  with 16 show ?thesis by (simp add: execute_def Let_def sub_preserves)
qed (auto simp add: execute_def Let_def skip_def and32_def int32_def)


lemma not_ret:
  "and32 opcode 0xF000 \<noteq> 0 \<Longrightarrow> opcode \<noteq> 0x00EE"
  by (auto simp: and32_def int32_def)

lemma stack_execute:
  "stack (execute rnd opcode s) =
     (if and32 opcode 0xF000 = 0x2000 then (stack s)(sp s := pc s) else stack s)"
  by (cases opcode rule: high_nibble_cases)
     (simp_all add: execute_def Let_def skip_def sub_preserves)

lemma delayTimer_execute:
  "delayTimer (execute rnd opcode s) =
     (if and32 opcode 0xF000 = 0xF000 \<and> and32 opcode 0x00FF = 0x15
      then v s (shr32 (and32 opcode 0x0F00) 8) else delayTimer s)"
proof (cases opcode rule: high_nibble_cases)
  case 16
  then show ?thesis
    by (simp add: execute_def exec_F000_def Let_def warn_unknown_def fold_preserves)
qed (simp_all add: execute_def Let_def skip_def sub_preserves)

lemma i_reg_execute:
  "i_reg (execute rnd opcode s) =
     (if and32 opcode 0xF000 = 0xA000 then Num (and32 opcode 0x0FFF)
      else if and32 opcode 0xF000 = 0xF000 \<and> and32 opcode 0x00FF = 0x1E then
        (if js_gt (js_add (i_reg s) (v s (shr32 (and32 opcode 0x0F00) 8))) (Num 0xFFF)
         then Num (and32 (toInt32 (js_add (i_reg s) (v s (shr32 (and32 opcode 0x0F00) 8)))) 0xFFF)
         else js_add (i_reg s) (v s (shr32 (and32 opcode 0x0F00) 8)))
      else if and32 opcode 0xF000 = 0xF000 \<and> and32 opcode 0x00FF = 0x29 then
        js_mul (v s (shr32 (and32 opcode 0x0F00) 8)) (Num 5)
      else i_reg s)"
proof (cases opcode rule: high_nibble_cases)
  case 16
  then show ?thesis
    by (simp add: execute_def exec_F000_def Let_def warn_unknown_def fold_preserves)
qed (simp_all add: execute_def Let_def skip_def sub_preserves)

lemma pc_execute:
  "pc (execute rnd opcode s) =
     (if opcode = 0x00EE then stack s (sp s - 1)
      else if and32 opcode 0xF000 = 0x1000 \<or> and32 opcode 0xF000 = 0x2000
        then Num (and32 opcode 0x0FFF)
      else if and32 opcode 0xF000 = 0xB000 then js_add (Num (and32 opcode 0x0FFF)) (v s 0)
      else pc (execute rnd opcode s))"
  "pc (execute rnd opcode s) = pc s \<or> pc (execute rnd opcode s) = js_add (pc s) (Num 2)
   \<or> opcode = 0x00EE \<or> and32 opcode 0xF000 = 0x1000 \<or> and32 opcode 0xF000 = 0x2000
   \<or> and32 opcode 0xF000 = 0xB000"
proof -
  show "pc (execute rnd opcode s) =
     (if opcode = 0x00EE then stack s (sp s - 1)
      else if and32 opcode 0xF000 = 0x1000 \<or> and32 opcode 0xF000 = 0x2000
        then Num (and32 opcode 0x0FFF)
      else if and32 opcode 0xF000 = 0xB000 then js_add (Num (and32 opcode 0x0FFF)) (v s 0)
      else pc (execute rnd opcode s))"
  proof (cases opcode rule: high_nibble_cases)
    case 1
    then show ?thesis by (simp add: execute_def exec_0000_def Let_def)
  qed (simp_all add: execute_def Let_def not_ret)
  show "pc (execute rnd opcode s) = pc s \<or> pc (execute rnd opcode s) = js_add (pc s) (Num 2)
   \<or> opcode = 0x00EE \<or> and32 opcode 0xF000 = 0x1000 \<or> and32 opcode 0xF000 = 0x2000
   \<or> and32 opcode 0xF000 = 0xB000"
  proof (cases opcode rule: high_nibble_cases)
    case 1
    then show ?thesis by (simp add: execute_def exec_0000_def Let_def warn_unknown_def)
  next
    case 15
    then show ?thesis by (simp add: execute_def exec_E000_def Let_def warn_unknown_def skip_def)
  qed (simp_all add: execute_def Let_def skip_def sub_preserves)
qed


lemma toInt32_byte: "fits 0xFF w \<Longrightarrow> 0 \<le> toInt32 w \<and> toInt32 w \<le> 0xFF \<and> w = Num (toInt32 w)"
  by (cases w) (simp_all add: int32_id fits_simps)

lemma fits_or32:
  assumes "fits 0xFF w1" "fits 0xFF w2"
  shows "fits 0xFF (Num (or32 (toInt32 w1) (toInt32 w2)))"
proof -
  from toInt32_byte[OF assms(1)] toInt32_byte[OF assms(2)]
  have a: "0 \<le> toInt32 w1" "toInt32 w1 < 2 ^ 8" and b: "0 \<le> toInt32 w2" "toInt32 w2 < 2 ^ 8"
    by simp_all
  from OR_upper[OF a b(2)] a b show ?thesis
    by (simp add: or32_def int32_id fits_simps)
qed

lemma fits_xor32:
  assumes "fits 0xFF w1" "fits 0xFF w2"
  shows "fits 0xFF (Num (xor32 (toInt32 w1) (toInt32 w2)))"
proof -
  from toInt32_byte[OF assms(1)] toInt32_byte[OF assms(2)]
  have a: "0 \<le> toInt32 w1" "toInt32 w1 < 2 ^ 8" and b: "0 \<le> toInt32 w2" "toInt32 w2 < 2 ^ 8"
    by simp_all
  from XOR_upper[OF a b(2)] a b show ?thesis
    by (simp add: xor32_def int32_id fits_simps)
qed

lemma fits_and32_regs:
  assumes "fits 0xFF w1" "fits 0xFF w2"
  shows "fits 0xFF (Num (and32 (toInt32 w1) (toInt32 w2)))"
proof -
  from toInt32_byte[OF assms(1)] toInt32_byte[OF assms(2)]
  have a: "0 \<le> toInt32 w1" "toInt32 w1 \<le> 0xFF" and b: "0 \<le> toInt32 w2" "toInt32 w2 \<le> 0xFF"
    by simp_all
  then show ?thesis
    by (simp add: and32_def int32_id fits_simps)
qed

lemma fits_shr32:
  assumes "fits 0xFF w"
  shows "fits 0xFF (Num (shr32 (toInt32 w) (Suc 0)))"
proof -
  from toInt32_byte[OF assms] have "0 \<le> toInt32 w" "toInt32 w \<le> 0xFF" by simp_all
  then show ?thesis by (simp add: shr32_def int32_id fits_simps; arith)
qed

lemma fits_msb: "fits 0xFF (Num (shr32 (and32 a 0x80) 7))"
proof -
  have "0 \<le> and32 a 0x80" "and32 a 0x80 \<le> 0x80"
    using and32_nonneg[of "0x80" a] and32_le[of "0x80" a] by simp_all
  then show ?thesis by (simp add: shr32_def int32_id fits_simps; arith)
qed

lemma fits_mask:
  "fits 0xFF (Num (and32 a 0xFF))" "fits 0xFF (Num (and32 a 0x1))"
  "fits 0xFFF (Num (and32 a 0x0FFF))" "fits 0xFF (Num 0)" "fits 0xFF (Num 1)"
  by (simp_all add: fits_and32) (simp_all add: fits_simps)

lemma regs_upd:
  "\<forall>r\<in>{0..15}. fits 0xFF (V r) \<Longrightarrow> fits 0xFF w \<Longrightarrow> \<forall>r\<in>{0..15}. fits 0xFF ((V(k := w)) r)"
  by simp

lemma mem_upd:
  "\<forall>a\<in>{0..0xFFF}. fits 0xFF (M (Num a)) \<Longrightarrow> fits 0xFF w \<Longrightarrow>
   \<forall>a\<in>{0..0xFFF}. fits 0xFF ((M(key := w)) (Num a))"
  by simp

lemma v_exec_8000:
  assumes R: "\<forall>r\<in>{0..15}. fits 0xFF (v s r)"
    and x: "0 \<le> x" "x \<le> 15" and y: "0 \<le> y" "y \<le> 15"
  shows "\<forall>r\<in>{0..15}. fits 0xFF (v (exec_8000 x y opcode s) r)"
proof
  fix r :: int
  assume "r \<in> {0..15}"
  then have vr: "fits 0xFF (v s r)" using R by simp
  have vx: "fits 0xFF (v s x)" and vy: "fits 0xFF (v s y)" and vf: "fits 0xFF (v s 15)"
    using R x y by simp_all
  show "fits 0xFF (v (exec_8000 x y opcode s) r)"
    unfolding exec_8000_def Let_def warn_unknown_def
    by (simp add: vr vx vy vf fits_or32 fits_xor32 fits_and32_regs fits_shr32 fits_msb fits_mask
          del: toInt32.simps)
qed


lemma fx65_regs:
  fixes s :: chip8
  assumes R: "\<forall>r\<in>{0..15}. fits 0xFF (v s r)"
    and M: "\<forall>a\<in>{0..0xFFF}. fits 0xFF (memory s (Num a))"
    and I: "i_reg s = Num i" "0 \<le> i" and n: "i + int n \<le> 0x1000"
  shows "\<forall>r\<in>{0..15}. fits 0xFF
     (v (fold (\<lambda>reg t. t\<lparr>v := (v t)(int reg := memory t (js_add (i_reg t) (Num (int reg))))\<rparr>)
           [0..<n] s) r)"
proof -
  define G :: "nat \<Rightarrow> chip8 \<Rightarrow> chip8" where
    "G = (\<lambda>reg t. t\<lparr>v := (v t)(int reg := memory t (js_add (i_reg t) (Num (int reg))))\<rparr>)"
  have mem: "memory (fold G ks t) = memory t" and ir: "i_reg (fold G ks t) = i_reg t" for ks t
    by (rule fold_preserves; simp add: G_def)+
  have "k \<le> n \<Longrightarrow> \<forall>r\<in>{0..15}. fits 0xFF (v (fold G [0..<k] s) r)" for k
  proof (induction k)
    case 0
    show ?case using R by simp
  next
    case (Suc k)
    then have IH: "\<forall>r\<in>{0..15}. fits 0xFF (v (fold G [0..<k] s) r)" by simp
    have "0 \<le> i + int k" "i + int k \<le> 0xFFF" using I(2) n Suc.prems by simp_all
    then have w: "fits 0xFF (memory s (Num (i + int k)))" using M by simp
    have "v (fold G [0..<Suc k] s)
        = (v (fold G [0..<k] s))(int k := memory s (Num (i + int k)))"
      by (simp add: G_def mem ir[unfolded G_def] mem[unfolded G_def] I(1))
    then show ?case using regs_upd[OF IH w] by simp
  qed
  then show ?thesis unfolding G_def by simp
qed

lemma fx55_mem:
  fixes s :: chip8
  assumes R: "\<forall>r\<in>{0..15}. fits 0xFF (v s r)"
    and M: "\<forall>a\<in>{0..0xFFF}. fits 0xFF (memory s (Num a))"
    and n: "n \<le> 16"
  shows "\<forall>a\<in>{0..0xFFF}. fits 0xFF
     (memory (fold (\<lambda>reg t. t\<lparr>memory := (memory t)(js_add (i_reg t) (Num (int reg)) := v t (int reg))\<rparr>)
           [0..<n] s) (Num a))"
proof -
  define G :: "nat \<Rightarrow> chip8 \<Rightarrow> chip8" where
    "G = (\<lambda>reg t. t\<lparr>memory := (memory t)(js_add (i_reg t) (Num (int reg)) := v t (int reg))\<rparr>)"
  have vv: "v (fold G ks t) = v t" for ks t
    by (rule fold_preserves) (simp add: G_def)
  have "k \<le> n \<Longrightarrow> \<forall>a\<in>{0..0xFFF}. fits 0xFF (memory (fold G [0..<k] s) (Num a))" for k
  proof (induction k)
    case 0
    show ?case using M by simp
  next
    case (Suc k)
    then have IH: "\<forall>a\<in>{0..0xFFF}. fits 0xFF (memory (fold G [0..<k] s) (Num a))" by simp
    have w: "fits 0xFF (v s (int k))" using R n Suc.prems by simp
    have "memory (fold G [0..<Suc k] s)
        = (memory (fold G [0..<k] s))
            (js_add (i_reg (fold G [0..<k] s)) (Num (int k)) := v s (int k))"
      by (simp add: G_def vv[unfolded G_def])
    then show ?case using mem_upd[OF IH w] by simp
  qed
  then show ?thesis unfolding G_def by simp
qed

lemma bcd_digits:
  assumes "fits 0xFF w"
  shows "fits 0xFF (js_floor_div w 100)" "fits 0xFF (js_floor_div (js_rem w 100) 10)"
    "fits 0xFF (js_rem w 10)"
proof -
  from assms obtain a where a: "w = Num a" "0 \<le> a" "a \<le> 0xFF" by (rule fitsE)
  have "a div 100 \<le> 255 div 100" using a(3) by (intro zdiv_mono1) simp_all
  then have 1: "0 \<le> a div 100 \<and> a div 100 \<le> 255"
    using a(2) by (simp add: pos_imp_zdiv_nonneg_iff)
  have b: "0 \<le> a mod 100" "a mod 100 \<le> 99" by simp_all
  have "a mod 100 div 10 \<le> 99 div 10" using b(2) by (intro zdiv_mono1) simp_all
  then have 2: "0 \<le> a mod 100 div 10 \<and> a mod 100 div 10 \<le> 255"
    using b(1) by (simp add: pos_imp_zdiv_nonneg_iff)
  have "0 \<le> a mod 10" "a mod 10 < 10" by simp_all
  then have 3: "0 \<le> a mod 10 \<and> a mod 10 \<le> 255" by simp
  have 4: "\<not> a mod 100 < 0" by simp
  show "fits 0xFF (js_floor_div w 100)" "fits 0xFF (js_floor_div (js_rem w 100) 10)"
    "fits 0xFF (js_rem w 10)"
    using a(2) 1 2 3 4 by (simp_all add: a(1) fits_simps rem_trunc_def)
qed


lemma v_exec_F000:
  fixes s :: chip8
  assumes R: "\<forall>r\<in>{0..15}. fits 0xFF (v s r)"
    and M: "\<forall>a\<in>{0..0xFFF}. fits 0xFF (memory s (Num a))"
    and D: "fits 0xFF (delayTimer s)" and I: "fits 0xFFF (i_reg s)"
    and x: "0 \<le> x" "x \<le> 15"
    and guard: "\<not> (and32 opcode 0x00FF = 0x65 \<and> js_gt (js_add (i_reg s) (Num x)) (Num 0xFFF))"
  shows "\<forall>r\<in>{0..15}. fits 0xFF (v (exec_F000 x opcode s) r)"
proof (cases "and32 opcode 0x00FF = 0x65")
  case True
  from I obtain i where i: "i_reg s = Num i" "0 \<le> i" by (rule fitsE)
  from guard True i have "i + x \<le> 0xFFF" by simp
  then have n: "i + int (nat (x + 1)) \<le> 0x1000" using x by simp
  from True have "exec_F000 x opcode s =
      fold (\<lambda>reg t. t\<lparr>v := (v t)(int reg := memory t (js_add (i_reg t) (Num (int reg))))\<rparr>)
          [0..<nat (x + 1)] s"
    by (simp add: exec_F000_def Let_def)
  then show ?thesis using fx65_regs[OF R M i n] by simp
next
  case False
  have v55: "v (fold (\<lambda>reg t. t\<lparr>memory := (memory t)(js_add (i_reg t) (Num (int reg)) := v t (int reg))\<rparr>)
          ks t) = v t" for ks and t :: chip8
    by (rule fold_preserves) simp
  show ?thesis
  proof
    fix r :: int
    assume "r \<in> {0..15}"
    then have vr: "fits 0xFF (v s r)" using R by simp
    have vx: "fits 0xFF (v s x)" and vf: "fits 0xFF (v s 15)" using R x by simp_all
    show "fits 0xFF (v (exec_F000 x opcode s) r)"
      unfolding exec_F000_def Let_def warn_unknown_def using False
      by (simp add: vr vx vf D v55 fits_mask del: toInt32.simps)
  qed
qed

lemma memory_exec_F000:
  fixes s :: chip8
  assumes R: "\<forall>r\<in>{0..15}. fits 0xFF (v s r)"
    and M: "\<forall>a\<in>{0..0xFFF}. fits 0xFF (memory s (Num a))"
    and x: "0 \<le> x" "x \<le> 15"
  shows "\<forall>a\<in>{0..0xFFF}. fits 0xFF (memory (exec_F000 x opcode s) (Num a))"
proof -
  have vx: "fits 0xFF (v s x)" using R x by simp
  have m65: "memory (fold (\<lambda>reg t. t\<lparr>v := (v t)(int reg := memory t (js_add (i_reg t) (Num (int reg))))\<rparr>)
          ks t) = memory t" for ks and t :: chip8
    by (rule fold_preserves) simp
  have n: "nat (x + 1) \<le> 16" using x by simp
  note m55 = fx55_mem[OF R M n]
  note three = mem_upd[OF mem_upd[OF mem_upd[OF M bcd_digits(1)[OF vx]] bcd_digits(2)[OF vx]]
      bcd_digits(3)[OF vx]]
  consider "and32 opcode 0x00FF = 0x33" | "and32 opcode 0x00FF = 0x55"
    | "and32 opcode 0x00FF \<noteq> 0x33 \<and> and32 opcode 0x00FF \<noteq> 0x55" by blast
  then show ?thesis
  proof cases
    case 1
    then have "memory (exec_F000 x opcode s) =
       (memory s)(i_reg s := js_floor_div (v s x) 100,
         js_add (i_reg s) (Num 1) := js_floor_div (js_rem (v s x) 100) 10,
         js_add (i_reg s) (Num 2) := js_rem (v s x) 10)"
      by (simp add: exec_F000_def Let_def)
    then show ?thesis using three by (simp del: fun_upd_apply)
  next
    case 2
    then have "exec_F000 x opcode s =
      fold (\<lambda>reg t. t\<lparr>memory := (memory t)(js_add (i_reg t) (Num (int reg)) := v t (int reg))\<rparr>)
          [0..<nat (x + 1)] s"
      by (simp add: exec_F000_def Let_def)
    then show ?thesis using m55 by simp
  next
    case 3
    then have "memory (exec_F000 x opcode s) = memory s"
      by (simp add: exec_F000_def Let_def warn_unknown_def m65)
    then show ?thesis using M by simp
  qed
qed

lemma v_execute:
  fixes s :: chip8
  assumes R: "\<forall>r\<in>{0..15}. fits 0xFF (v s r)"
    and M: "\<forall>a\<in>{0..0xFFF}. fits 0xFF (memory s (Num a))"
    and D: "fits 0xFF (delayTimer s)" and I: "fits 0xFFF (i_reg s)"
    and guard: "\<not> (and32 opcode 0xF000 = 0xF000 \<and> and32 opcode 0x00FF = 0x65
        \<and> js_gt (js_add (i_reg s) (Num (shr32 (and32 opcode 0x0F00) 8))) (Num 0xFFF))"
  shows "\<forall>r\<in>{0..15}. fits 0xFF (v (execute rnd opcode s) r)"
proof (cases opcode rule: high_nibble_cases)
  case 7
  then show ?thesis using regs_upd[OF R fits_mask(1)] by (simp add: execute_def Let_def)
next
  case 8
  then show ?thesis using regs_upd[OF R fits_mask(1)] by (simp add: execute_def Let_def)
next
  case 9
  then show ?thesis
    using v_exec_8000[OF R] nibble_x[of opcode] nibble_y[of opcode]
    by (simp add: execute_def Let_def)
next
  case 13
  have "fits 0xFF (Num (and32 rnd (and32 opcode 0x00FF)))"
    using and32_nonneg[of "0xFF" opcode] and32_le[of "0xFF" opcode]
    by (intro fits_and32) simp_all
  with 13 show ?thesis using regs_upd[OF R] by (simp add: execute_def Let_def)
next
  case 14
  have n32: "and32 opcode 0x000F \<le> 32" using and32_le[of 15 opcode] by simp
  have "fits 0xFF (if b then Num 1 else Num 0)" for b by (simp add: fits_mask)
  from regs_upd[OF R this] 14 show ?thesis
    by (simp add: execute_def Let_def draw_sprite_fields(2)[OF n32] del: fun_upd_apply)
next
  case 16
  then show ?thesis
    using v_exec_F000[OF R M D I] nibble_x[of opcode] guard
    by (simp add: execute_def Let_def)
qed (use R in \<open>simp_all add: execute_def Let_def skip_def sub_preserves\<close>)

lemma memory_execute:
  fixes s :: chip8
  assumes R: "\<forall>r\<in>{0..15}. fits 0xFF (v s r)"
    and M: "\<forall>a\<in>{0..0xFFF}. fits 0xFF (memory s (Num a))"
  shows "\<forall>a\<in>{0..0xFFF}. fits 0xFF (memory (execute rnd opcode s) (Num a))"
proof (cases opcode rule: high_nibble_cases)
  case 16
  then show ?thesis
    using memory_exec_F000[OF R M] nibble_x[of opcode]
    by (simp add: execute_def Let_def)
qed (use M in \<open>simp_all add: execute_def Let_def skip_def sub_preserves\<close>)


lemma fontset_bytes: "\<forall>b\<in>set fontset. 0 \<le> b \<and> b \<le> 0xFF"
  by (simp add: fontset_def)

lemma machine_ok_boot:
  assumes "\<forall>b\<in>set bytes. 0 \<le> b \<and> b \<le> 0xFF"
  shows "machine_ok (boot bytes)"
proof -
  have mem: "fits 0xFF (memory (boot bytes) (Num a))" if "a \<in> {0..0xFFF}" for a
  proof -
    have rom: "fits 0xFF (map Num bytes ! nat (a - 0x200))"
      if "0x200 \<le> a" "a < 0x200 + int (length bytes)"
    proof -
      from that have l: "nat (a - 0x200) < length bytes" by simp
      then have "bytes ! nat (a - 0x200) \<in> set bytes" by (rule nth_mem)
      with assms show ?thesis by (simp add: fits_simps nth_map[OF l])
    qed
    have font: "fits 0xFF (Num (fontset ! nat a))" if "0 \<le> a" "a < 80"
    proof -
      from that have "nat a < length fontset" by (simp add: fontset_def)
      then have "fontset ! nat a \<in> set fontset" by (rule nth_mem)
      with fontset_bytes show ?thesis by (simp add: fits_simps)
    qed
    show ?thesis
    proof (cases "0x200 \<le> a \<and> a < 0x200 + int (length bytes)")
      case True
      then have "memory (boot bytes) (Num a) = map Num bytes ! nat (a - 0x200)"
        by (simp add: boot_def memory_loadROM_Num)
      with rom True show ?thesis by simp
    next
      case False
      then have m: "memory (boot bytes) (Num a) = memory new_chip8 (Num a)"
        by (auto simp add: boot_def memory_loadROM_Num)
      show ?thesis
      proof (cases "a < 80")
        case True
        with that have "memory new_chip8 (Num a) = Num (fontset ! nat a)"
          by (simp add: memory_new_chip8_Num)
        with font True that show ?thesis by (simp add: m)
      next
        case False
        with that have "memory new_chip8 (Num a) = Num 0"
          by (simp add: memory_new_chip8_Num)
        then show ?thesis by (simp add: m fits_simps)
      qed
    qed
  qed
  then show ?thesis
    by (simp add: machine_ok_def machine_inv_def boot_simps fits_simps)
qed

lemma st_jump_facts:
  "fetch st_jump = 0xB204" "pc st_jump = Num 0x200" "i_reg st_jump = Num 0" "sp st_jump = 0"
  "v st_jump 0 = Num 0"
  by (simp_all add: st_jump_def boot_simps exec_defs)

text \<open>
  Claim C1 says that the invariants \<open>machine_inv\<close> hold after every call of
  \<^verbatim>\<open>executeInstruction()\<close>, and that every write to \<open>PC\<close> is masked to 12 bits, also
  for BNNN. The code never masks \<open>PC\<close>: BNNN is \<^verbatim>\<open>this.pc = nnn + this.v[0]\<close>. After
  \<open>6 0 F F\<close> has set \<open>V[0] = 0xFF\<close>, the invariants hold, and \<open>B F F F\<close> leaves
  \<open>PC = 0x10FE\<close>.
\<close>

theorem bnnn_unmasked_counterexample:
  "machine_inv st_bnnn \<and> fetch st_bnnn = 0xBFFF \<and> v st_bnnn 0 = Num 0xFF
   \<and> pc (executeInstruction 0 st_bnnn) = Num 0x10FE
   \<and> \<not> machine_inv (executeInstruction 0 st_bnnn)"
proof -
  have 1: "machine_inv st_bnnn"
    by (simp add: machine_inv_def st_bnnn_def run_simps fits_simps)
  have 2: "fetch st_bnnn = 0xBFFF \<and> v st_bnnn 0 = Num 0xFF
      \<and> pc (executeInstruction 0 st_bnnn) = Num 0x10FE"
    by (simp add: st_bnnn_def run_simps)
  then have 3: "\<not> machine_inv (executeInstruction 0 st_bnnn)"
    by (simp add: machine_inv_def fits_simps)
  from 1 2 3 show ?thesis by simp
qed

text \<open>
  C1, amended: let the state before the call satisfy the invariants, with 8-bit values in
  the 4096 memory cells and in the delay timer (every freshly booted machine with a ROM
  of bytes does, \<open>machine_ok_boot\<close>). Then after \<^verbatim>\<open>executeInstruction()\<close>:
  \<^item> \<open>0 \<le> I \<le> 0xFFF\<close>, and the memory cells and the delay timer still hold 8-bit values;
  \<^item> every register fits in 8 bits, unless the instruction is FX65 with \<open>I + x > 0xFFF\<close>
    (it then reads slots past the end of the memory);
  \<^item> \<open>0 \<le> SP \<le> 16\<close>, unless the instruction is RET with \<open>SP = 0\<close> or CALL with \<open>SP = 16\<close>;
  \<^item> every stack entry fits in 12 bits, unless the instruction is CALL and the return
    address \<open>PC + 2\<close> exceeds \<open>0xFFF\<close>;
  \<^item> \<open>PC\<close> is never masked: \<open>0 \<le> PC \<le> 0xFFF\<close> holds if \<open>PC \<le> 0xFFB\<close> before the call
    and the instruction is neither RET with \<open>SP = 0\<close> nor BNNN with \<open>nnn + V[0] > 0xFFF\<close>;
    BNNN sets \<open>PC = nnn + V[0]\<close>.
\<close>

theorem machine_inv_after_step:
  assumes ok: "machine_ok s"
  shows "let opcode = fetch s; h = and32 opcode 0xF000; nn = and32 opcode 0x00FF;
             nnn = and32 opcode 0x0FFF; x = shr32 (and32 opcode 0x0F00) 8;
             s' = executeInstruction rnd s
         in fits 0xFFF (i_reg s')
          \<and> (\<forall>a\<in>{0..0xFFF}. fits 0xFF (memory s' (Num a)))
          \<and> fits 0xFF (delayTimer s')
          \<and> (\<not> (h = 0xF000 \<and> nn = 0x65 \<and> js_gt (js_add (i_reg s) (Num x)) (Num 0xFFF))
               \<longrightarrow> (\<forall>r\<in>{0..15}. fits 0xFF (v s' r)))
          \<and> (\<not> (opcode = 0x00EE \<and> sp s = 0) \<and> \<not> (h = 0x2000 \<and> sp s = 16)
               \<longrightarrow> 0 \<le> sp s' \<and> sp s' \<le> 16)
          \<and> (\<not> (h = 0x2000 \<and> js_gt (js_add (pc s) (Num 2)) (Num 0xFFF))
               \<longrightarrow> (\<forall>k\<in>{0..15}. fits 0xFFF (stack s' k)))
          \<and> (js_gt (Num 0xFFC) (pc s) \<and> \<not> (opcode = 0x00EE \<and> sp s = 0)
               \<and> \<not> (h = 0xB000 \<and> js_gt (js_add (Num nnn) (v s 0)) (Num 0xFFF))
               \<longrightarrow> fits 0xFFF (pc s'))
          \<and> (h = 0xB000 \<longrightarrow> pc s' = js_add (Num nnn) (v s 0))"
proof -
  define opcode where "opcode = fetch s"
  define h where "h = and32 opcode 0xF000"
  define nn where "nn = and32 opcode 0x00FF"
  define nnn where "nnn = and32 opcode 0x0FFF"
  define x where "x = shr32 (and32 opcode 0x0F00) 8"
  define s0 where "s0 = skip (s\<lparr>lastInstruction := Some opcode\<rparr>)"
  define s' where "s' = executeInstruction rnd s"
  have s': "s' = execute rnd opcode s0"
    by (simp add: s'_def s0_def opcode_def executeInstruction_def Let_def)
  have s0: "v s0 = v s" "memory s0 = memory s" "i_reg s0 = i_reg s" "sp s0 = sp s"
    "stack s0 = stack s" "delayTimer s0 = delayTimer s" "pc s0 = js_add (pc s) (Num 2)"
    by (simp_all add: s0_def skip_def)
  from ok have P: "fits 0xFFF (pc s)" and I: "fits 0xFFF (i_reg s)"
    and SP: "0 \<le> sp s" "sp s \<le> 16"
    and R: "\<forall>r\<in>{0..15}. fits 0xFF (v s r)" and S: "\<forall>k\<in>{0..15}. fits 0xFFF (stack s k)"
    and M: "\<forall>a\<in>{0..0xFFF}. fits 0xFF (memory s (Num a))" and D: "fits 0xFF (delayTimer s)"
    by (simp_all add: machine_ok_def machine_inv_def)
  from P obtain p where p: "pc s = Num p" "0 \<le> p" "p \<le> 0xFFF" by (rule fitsE)
  from I obtain i where i: "i_reg s = Num i" "0 \<le> i" "i \<le> 0xFFF" by (rule fitsE)
  have xr: "0 \<le> x" "x \<le> 15" using nibble_x[of opcode] by (simp_all add: x_def)
  then have vx: "fits 0xFF (v s x)" and v0: "fits 0xFF (v s 0)" using R by simp_all
  from vx obtain a where a: "v s x = Num a" "0 \<le> a" "a \<le> 0xFF" by (rule fitsE)
  from v0 obtain b where b: "v s 0 = Num b" "0 \<le> b" "b \<le> 0xFF" by (rule fitsE)
  have nnn: "0 \<le> nnn" "nnn \<le> 0xFFF"
    using and32_nonneg[of "0xFFF" opcode] and32_le[of "0xFFF" opcode] by (simp_all add: nnn_def)

  have c1: "fits 0xFFF (i_reg s')"
    unfolding s' i_reg_execute s0 x_def[symmetric] a i using a(2,3) i(2,3)
    by (auto simp add: fits_simps and32_nonneg and32_le simp del: toInt32.simps)
  have c2: "\<forall>a\<in>{0..0xFFF}. fits 0xFF (memory s' (Num a))"
    unfolding s' by (rule memory_execute) (simp_all add: s0 R M)
  have c3: "fits 0xFF (delayTimer s')"
    unfolding s' delayTimer_execute s0 x_def[symmetric] using vx D by simp
  have c4: "\<forall>r\<in>{0..15}. fits 0xFF (v s' r)"
    if "\<not> (h = 0xF000 \<and> nn = 0x65 \<and> js_gt (js_add (i_reg s) (Num x)) (Num 0xFFF))"
    unfolding s' using that
    by (intro v_execute) (simp_all add: s0 R M D I h_def nn_def x_def)
  have c5: "0 \<le> sp s' \<and> sp s' \<le> 16"
    if "\<not> (opcode = 0x00EE \<and> sp s = 0) \<and> \<not> (h = 0x2000 \<and> sp s = 16)"
    unfolding s' sp_execute s0 using that SP by (auto simp: h_def)
  have c6: "\<forall>k\<in>{0..15}. fits 0xFFF (stack s' k)"
    if "\<not> (h = 0x2000 \<and> js_gt (js_add (pc s) (Num 2)) (Num 0xFFF))"
    unfolding s' stack_execute s0 using that S p(2,3)
    by (auto simp: h_def p(1) fits_simps)
  have c8: "pc s' = js_add (Num nnn) (v s 0)" if "h = 0xB000"
  proof -
    from that have "opcode \<noteq> 0x00EE" by (intro not_ret) (simp add: h_def)
    with that show ?thesis
      unfolding s' by (subst pc_execute(1)) (simp add: h_def nnn_def s0)
  qed
  have c7: "fits 0xFFF (pc s')"
    if g: "js_gt (Num 0xFFC) (pc s) \<and> \<not> (opcode = 0x00EE \<and> sp s = 0)
        \<and> \<not> (h = 0xB000 \<and> js_gt (js_add (Num nnn) (v s 0)) (Num 0xFFF))"
  proof -
    from g have p4: "p \<le> 0xFFB" by (simp add: p(1))
    consider (ret) "opcode = 0x00EE" | (jp) "opcode \<noteq> 0x00EE" "h = 0x1000 \<or> h = 0x2000"
      | (bnnn) "opcode \<noteq> 0x00EE" "h = 0xB000"
      | (other) "opcode \<noteq> 0x00EE" "h \<noteq> 0x1000" "h \<noteq> 0x2000" "h \<noteq> 0xB000"
      by blast
    then show ?thesis
    proof cases
      case ret
      with g SP have "sp s - 1 \<in> {0..15}" by simp
      then have "fits 0xFFF (stack s (sp s - 1))" using S by blast
      with ret show ?thesis unfolding s' by (subst pc_execute(1)) (simp add: s0)
    next
      case jp
      then show ?thesis
        unfolding s' by (subst pc_execute(1)) (auto simp add: h_def fits_mask)
    next
      case bnnn
      with g have "nnn + b \<le> 0xFFF" by (simp add: b(1))
      then have "fits 0xFFF (js_add (Num nnn) (v s 0))"
        using nnn(1) b(2) by (simp add: b(1) fits_simps)
      then show ?thesis by (simp add: c8[OF bnnn(2)])
    next
      case other
      with pc_execute(2)[of rnd opcode s0]
      have "pc s' = pc s0 \<or> pc s' = js_add (pc s0) (Num 2)"
        by (simp add: s' h_def)
      then show ?thesis using p(2) p4 by (auto simp add: s0 p(1) fits_simps)
    qed
  qed
  from c1 c2 c3 c4 c5 c6 c7 c8 show ?thesis
    unfolding Let_def opcode_def[symmetric] h_def[symmetric] nn_def[symmetric]
      nnn_def[symmetric] x_def[symmetric] s'_def[symmetric]
    by blast
qed


theorem machine_inv_after_step_witness:
  "machine_ok st_jump \<and> machine_inv (executeInstruction 0 st_jump)
   \<and> pc (executeInstruction 0 st_jump) = Num 0x204"
proof -
  have ok: "machine_ok st_jump"
    unfolding st_jump_def by (rule machine_ok_boot) simp
  from machine_inv_after_step[OF ok, of 0]
  have "machine_inv (executeInstruction 0 st_jump)
      \<and> pc (executeInstruction 0 st_jump) = Num 0x204"
    by (simp add: Let_def st_jump_facts and32_def shr32_def int32_def machine_inv_def
        fits_simps)
  with ok show ?thesis by simp
qed

end
